theory Spec2Isabelle
  imports
    Complex_Main
    "HOL-Library.Log_Nat"
    "HOL-Library.Multiset"
    "HOL-Library.Product_Lexorder"
begin

section \<open>Study organizer: the review scheduler and the task registry\<close>

text \<open>
  A shallow embedding of \<^verbatim>\<open>main.py\<close>. The four data files are modelled by the
  records that \<^verbatim>\<open>tasks_list\<close> and \<^verbatim>\<open>load_reviews\<close> parse out of them (a task
  line that parses has an integer id, as every line the program writes has; the fields
  of a record that was read hold no \<^verbatim>\<open>|\<close> and no line break, and the line that
  \<^verbatim>\<open>add-task\<close> writes for a new task is read back from its text).
  \<^verbatim>\<open>date.today()\<close> is a parameter of every
  command that reads it. A Python \<^verbatim>\<open>float\<close> is a binary64 value, and every raise of
  the source is a branch of the model.
\<close>

subsection \<open>Python floats: binary64 with round-to-nearest, ties to even\<close>

text \<open>
  A float is a rational (the exact value of a finite double), an infinity or a NaN. The
  two zeros are one value here: the program never divides and never looks at the sign of
  a zero. Every arithmetic operation computes the exact rational result and rounds it.
\<close>

datatype py_error = OverflowError | ValueError

datatype pyfloat = Fin rat | PInf | NInf | NaN

text \<open>Rounding a rational to the nearest integer, ties to the even one.\<close>

definition rhe :: "rat \<Rightarrow> int" where
  "rhe x = (let f = \<lfloor>x\<rfloor>; r = x - of_int f in
     if r < 1 / 2 then f else if 1 / 2 < r then f + 1 else if even f then f else f + 1)"

text \<open>The binary exponent of a positive rational: \<open>2 powi ilog2 x \<le> x < 2 powi (ilog2 x + 1)\<close>.\<close>

definition ilog2 :: "rat \<Rightarrow> int" where
  "ilog2 x = (if 1 \<le> x then bitlen \<lfloor>x\<rfloor> - 1 else - bitlen (\<lceil>1 / x\<rceil> - 1))"

text \<open>
  Rounding to binary64: 53 significant bits, the exponent of the unit in the last place
  never below \<open>-1074\<close> (subnormal numbers), and a result of magnitude \<open>2 ^ 1024\<close> or more
  is an infinity.
\<close>

definition round_mag :: "rat \<Rightarrow> rat" where
  "round_mag x = (let e = max (ilog2 x) (- 1022); u = 2 powi (e - 52)
                  in of_int (rhe (x / u)) * u)"

definition rnd64 :: "rat \<Rightarrow> pyfloat" where
  "rnd64 x = (if x = 0 then Fin 0 else
     let y = round_mag \<bar>x\<bar>
     in if 2 ^ 1024 \<le> y then (if 0 < x then PInf else NInf) else Fin (sgn x * y))"

text \<open>A decimal literal of the source, such as \<^verbatim>\<open>0.1\<close>, is the double nearest to it.\<close>

definition float_lit :: "rat \<Rightarrow> pyfloat" where
  "float_lit r = rnd64 r"

text \<open>\<^verbatim>\<open>int * float\<close> converts the int first; an int beyond the doubles raises.\<close>

definition float_of_int :: "int \<Rightarrow> py_error + pyfloat" where
  "float_of_int n = (case rnd64 (of_int n) of Fin r \<Rightarrow> Inr (Fin r) | _ \<Rightarrow> Inl OverflowError)"

fun fneg :: "pyfloat \<Rightarrow> pyfloat" where
  "fneg (Fin a) = Fin (- a)"
| "fneg PInf = NInf"
| "fneg NInf = PInf"
| "fneg NaN = NaN"

fun fadd :: "pyfloat \<Rightarrow> pyfloat \<Rightarrow> pyfloat" where
  "fadd (Fin a) (Fin b) = rnd64 (a + b)"
| "fadd NaN _ = NaN"
| "fadd _ NaN = NaN"
| "fadd PInf NInf = NaN"
| "fadd NInf PInf = NaN"
| "fadd PInf _ = PInf"
| "fadd _ PInf = PInf"
| "fadd NInf _ = NInf"
| "fadd _ NInf = NInf"

definition fsub :: "pyfloat \<Rightarrow> pyfloat \<Rightarrow> pyfloat" where
  "fsub a b = fadd a (fneg b)"

fun fmul :: "pyfloat \<Rightarrow> pyfloat \<Rightarrow> pyfloat" where
  "fmul (Fin a) (Fin b) = rnd64 (a * b)"
| "fmul NaN _ = NaN"
| "fmul _ NaN = NaN"
| "fmul PInf (Fin b) = (if b = 0 then NaN else if 0 < b then PInf else NInf)"
| "fmul NInf (Fin b) = (if b = 0 then NaN else if 0 < b then NInf else PInf)"
| "fmul (Fin a) PInf = (if a = 0 then NaN else if 0 < a then PInf else NInf)"
| "fmul (Fin a) NInf = (if a = 0 then NaN else if 0 < a then NInf else PInf)"
| "fmul PInf PInf = PInf"
| "fmul NInf NInf = PInf"
| "fmul PInf NInf = NInf"
| "fmul NInf PInf = NInf"

text \<open>Python's \<^verbatim>\<open><\<close> and \<^verbatim>\<open><=\<close> on floats: every comparison with a NaN is false.\<close>

fun flt :: "pyfloat \<Rightarrow> pyfloat \<Rightarrow> bool" where
  "flt (Fin a) (Fin b) = (a < b)"
| "flt NaN _ = False"
| "flt _ NaN = False"
| "flt _ NInf = False"
| "flt NInf _ = True"
| "flt PInf _ = False"
| "flt _ PInf = True"

fun fle :: "pyfloat \<Rightarrow> pyfloat \<Rightarrow> bool" where
  "fle (Fin a) (Fin b) = (a \<le> b)"
| "fle NaN _ = False"
| "fle _ NaN = False"
| "fle NInf _ = True"
| "fle _ PInf = True"
| "fle _ NInf = False"
| "fle PInf _ = False"

text \<open>\<^verbatim>\<open>max(a, b)\<close> keeps its first argument unless the second is greater.\<close>

definition py_max :: "pyfloat \<Rightarrow> pyfloat \<Rightarrow> pyfloat" where
  "py_max a b = (if flt a b then b else a)"

text \<open>\<^verbatim>\<open>int(round(x))\<close>: ties to even on the exact value; no integer for an infinity or a NaN.\<close>

fun py_round :: "pyfloat \<Rightarrow> py_error + int" where
  "py_round (Fin a) = Inr (rhe a)"
| "py_round NaN = Inl ValueError"
| "py_round PInf = Inl OverflowError"
| "py_round NInf = Inl OverflowError"

text \<open>
  What \<^verbatim>\<open>float(p[3])\<close> reads back from the text \<^verbatim>\<open>f"{e:.2f}"\<close>: the double nearest
  to the value rounded to two decimals.
\<close>

fun stored_ease :: "pyfloat \<Rightarrow> pyfloat" where
  "stored_ease (Fin a) = rnd64 (of_int (rhe (a * 100)) / 100)"
| "stored_ease PInf = PInf"
| "stored_ease NInf = NInf"
| "stored_ease NaN = NaN"

subsection \<open>Dates\<close>

text \<open>
  A \<^verbatim>\<open>date\<close> is its proleptic Gregorian ordinal, from 1 (0001-01-01) to 3652059
  (9999-12-31). \<^verbatim>\<open>timedelta(days=n)\<close> raises beyond 999999999 days, and the sum
  raises outside the range of dates.
\<close>

type_synonym date = int

definition valid_date :: "date \<Rightarrow> bool" where
  "valid_date d = (1 \<le> d \<and> d \<le> 3652059)"

definition date_plus_days :: "date \<Rightarrow> int \<Rightarrow> py_error + date" where
  "date_plus_days d n =
     (if 999999999 < \<bar>n\<bar> then Inl OverflowError
      else if valid_date (d + n) then Inr (d + n)
      else Inl OverflowError)"

subsection \<open>The stores\<close>

record task =
  t_id :: int
  t_subject :: string
  t_title :: string
  t_status :: string

record review =
  task_id :: int
  interval_days :: int
  due :: date
  ease :: pyfloat

record store =
  subjects_file :: "string list"
  tasks_file :: "task list"
  reviews_file :: "review list"
  sessions_file :: "string list"

definition STATUS_TODO :: string where "STATUS_TODO = ''todo''"
definition STATUS_DOING :: string where "STATUS_DOING = ''doing''"
definition STATUS_DONE :: string where "STATUS_DONE = ''done''"

text \<open>What a command prints.\<close>

datatype flag = OVERDUE | DUE | NOFLAG

record review_row =
  rr_review :: review
  rr_subject :: string
  rr_title :: string
  rr_flag :: flag

record task_row =
  tr_task :: task
  tr_due :: "date option"
  tr_flag :: flag

datatype message =
    Added_task int string string
  | Add_task_usage
  | Task_updated int string string string
  | Task_not_found int
  | Next_review int int date
  | No_reviews_due date
  | No_reviews_scheduled
  | Review_table "review_row list"
  | No_matching_tasks
  | Task_table "task_row list"
  | Cleared_all
  | Cleared string
  | Clear_usage

subsection \<open>Reviews\<close>

definition load_reviews :: "store \<Rightarrow> review list" where
  "load_reviews st = reviews_file st"

text \<open>\<^verbatim>\<open>_save_reviews\<close> writes the ease with two decimals; the next load reads that.\<close>

definition save_reviews :: "review list \<Rightarrow> store \<Rightarrow> store" where
  "save_reviews reviews st = st\<lparr>reviews_file := map (\<lambda>r. r\<lparr>ease := stored_ease (ease r)\<rparr>) reviews\<rparr>"

text \<open>The loop of \<^verbatim>\<open>upsert_review\<close>: the first record of the task is replaced, else one is appended.\<close>

fun upsert_list :: "review \<Rightarrow> review list \<Rightarrow> review list" where
  "upsert_list new [] = [new]"
| "upsert_list new (r # rs) =
     (if task_id r = task_id new then new # rs else r # upsert_list new rs)"

definition upsert_review :: "int \<Rightarrow> int \<Rightarrow> date \<Rightarrow> pyfloat \<Rightarrow> store \<Rightarrow> store" where
  "upsert_review tid i d e st =
     save_reviews
       (upsert_list \<lparr>task_id = tid, interval_days = i, due = d, ease = e\<rparr> (load_reviews st)) st"

definition update_ease :: "pyfloat \<Rightarrow> int \<Rightarrow> py_error + pyfloat" where
  "update_ease e quality =
     (case float_of_int (5 - quality) of
        Inl err \<Rightarrow> Inl err
      | Inr k \<Rightarrow>
          let delta = fsub (float_lit (1 / 10))
                        (fmul k (fadd (float_lit (8 / 100)) (fmul k (float_lit (2 / 100)))))
          in Inr (py_max (float_lit (13 / 10)) (fadd e delta)))"

definition cmd_review :: "date \<Rightarrow> int \<Rightarrow> int \<Rightarrow> store \<Rightarrow> py_error + message \<times> store" where
  "cmd_review today tid quality st =
     (let reviews = load_reviews st;
          existing = find (\<lambda>r. task_id r = tid) reviews;
          (interval, e) = (case existing of
                             None \<Rightarrow> (1, float_lit (5 / 2))
                           | Some r \<Rightarrow> (interval_days r, ease r))
      in case update_ease e quality of
           Inl err \<Rightarrow> Inl err
         | Inr e' \<Rightarrow>
             (case (if quality < 3 then Inr 1
                    else if interval = 0 \<or> interval = 1 then Inr 6
                    else (case float_of_int interval of
                            Inl err \<Rightarrow> Inl err
                          | Inr fi \<Rightarrow>
                              (case py_round (fmul fi e') of
                                 Inl err \<Rightarrow> Inl err
                               | Inr n \<Rightarrow> Inr (max 1 n)))) of
                Inl err \<Rightarrow> Inl err
              | Inr interval' \<Rightarrow>
                  (case date_plus_days today interval' of
                     Inl err \<Rightarrow> Inl err
                   | Inr d \<Rightarrow>
                       Inr (Next_review tid interval' d, upsert_review tid interval' d e' st))))"

subsection \<open>Strings\<close>

text \<open>
  A string is the list of its code points, and a character here is a code point below
  256. On these, \<^verbatim>\<open>str.strip\<close> removes the white space of Python (9 to 13, 28 to 32,
  133 and 160) from both ends, and \<^verbatim>\<open>str.lower\<close> maps the capital letters of ASCII
  and of Latin-1 to the small ones.
\<close>

definition is_space :: "char \<Rightarrow> bool" where
  "is_space c = (let n = (of_char c :: nat) in
     (9 \<le> n \<and> n \<le> 13) \<or> (28 \<le> n \<and> n \<le> 32) \<or> n = 133 \<or> n = 160)"

definition strip :: "string \<Rightarrow> string" where
  "strip s = rev (dropWhile is_space (rev (dropWhile is_space s)))"

definition lower_char :: "char \<Rightarrow> char" where
  "lower_char c = (let n = (of_char c :: nat) in
     if (65 \<le> n \<and> n \<le> 90) \<or> (192 \<le> n \<and> n \<le> 222 \<and> n \<noteq> 215)
     then char_of (n + 32) else c)"

definition lower :: "string \<Rightarrow> string" where
  "lower s = map lower_char s"

text \<open>
  \<^verbatim>\<open>str(n)\<close> of an integer: its decimal digits after the sign. CPython refuses to
  convert an integer of more than 4300 digits with a \<^verbatim>\<open>ValueError\<close>.
\<close>

definition max_str_digits :: nat where
  "max_str_digits = 4300"

definition digit_char :: "nat \<Rightarrow> char" where
  "digit_char d = char_of (48 + d)"

fun str_of_nat :: "nat \<Rightarrow> string" where
  "str_of_nat n = (if n < 10 then [digit_char n]
                   else str_of_nat (n div 10) @ [digit_char (n mod 10)])"

declare str_of_nat.simps [simp del]

definition py_str :: "int \<Rightarrow> py_error + string" where
  "py_str n = (let ds = str_of_nat (nat \<bar>n\<bar>) in
     if max_str_digits < length ds then Inl ValueError
     else Inr (if n < 0 then CHR ''-'' # ds else ds))"

text \<open>\<^verbatim>\<open>"|".join(fields)\<close> and \<^verbatim>\<open>line.split("|")\<close>.\<close>

fun join_bar :: "string list \<Rightarrow> string" where
  "join_bar [] = []"
| "join_bar [x] = x"
| "join_bar (x # y # zs) = x @ CHR ''|'' # join_bar (y # zs)"

fun split_acc :: "char \<Rightarrow> string \<Rightarrow> string \<Rightarrow> string list" where
  "split_acc d cur [] = [rev cur]"
| "split_acc d cur (c # cs) =
     (if c = d then rev cur # split_acc d [] cs else split_acc d (c # cur) cs)"

definition split_bar :: "string \<Rightarrow> string list" where
  "split_bar s = split_acc (CHR ''|'') [] s"

text \<open>
  The lines that \<^verbatim>\<open>_read\<close> gives back for a text that was written as one line, the
  line end after it included: a line feed, a carriage return, and a carriage return with
  a line feed after it each end a line.
\<close>

fun read_lines_acc :: "string \<Rightarrow> string \<Rightarrow> string list" where
  "read_lines_acc cur [] = [rev cur]"
| "read_lines_acc cur [c] =
     (if c = CHR 0x0D then [rev cur]
      else if c = CHR 0x0A then [rev cur, []]
      else [rev (c # cur)])"
| "read_lines_acc cur (c # d # cs) =
     (if c = CHR 0x0D \<and> d = CHR 0x0A then rev cur # read_lines_acc [] cs
      else if c = CHR 0x0D \<or> c = CHR 0x0A then rev cur # read_lines_acc [] (d # cs)
      else read_lines_acc (c # cur) (d # cs))"

definition read_lines :: "string \<Rightarrow> string list" where
  "read_lines s = read_lines_acc [] s"

subsection \<open>Subjects and tasks\<close>

definition subjects_list :: "store \<Rightarrow> string list" where
  "subjects_list st = map strip (filter (\<lambda>s. strip s \<noteq> []) (subjects_file st))"

text \<open>\<^verbatim>\<open>_append(SUBJECTS_FILE, name)\<close>: the lines that the name is read back as.\<close>

definition append_subject :: "string \<Rightarrow> store \<Rightarrow> store" where
  "append_subject name st = st\<lparr>subjects_file := subjects_file st @ read_lines name\<rparr>"

definition tasks_list :: "store \<Rightarrow> task list" where
  "tasks_list st = tasks_file st"

definition save_tasks :: "task list \<Rightarrow> store \<Rightarrow> store" where
  "save_tasks tasks st = st\<lparr>tasks_file := tasks\<rparr>"

text \<open>\<^verbatim>\<open>max([int(t["id"]) for t in tasks]) + 1 if tasks else 1\<close>\<close>

definition next_task_id :: "task list \<Rightarrow> int" where
  "next_task_id tasks = (case tasks of [] \<Rightarrow> 1 | t # ts \<Rightarrow> fold max (map t_id ts) (t_id t) + 1)"

text \<open>
  \<^verbatim>\<open>_parse_task\<close>: the stripped fields of a line of exactly four fields, as the texts
  of the id, the subject, the title and the status.
\<close>

definition parse_task :: "string \<Rightarrow> (string \<times> string \<times> string \<times> string) option" where
  "parse_task line = (case map strip (split_bar line) of
                        [a, b, c, d] \<Rightarrow> Some (a, b, c, d)
                      | _ \<Rightarrow> None)"

text \<open>
  \<^verbatim>\<open>tasks.append(task)\<close> and \<^verbatim>\<open>_save_tasks(tasks)\<close>, as the tasks that
  \<^verbatim>\<open>tasks_list\<close> reads afterwards. The tasks that were in the store are read back as
  they are. The line of the new task is written without any escaping: when it is read as
  one line of these four fields, the new task is in the store (and \<^verbatim>\<open>int\<close> of its id
  text is its id); when none of the lines it is read as has four fields, the new task
  is skipped; a line of four other fields is a task that was written inside a field,
  and the task store is then outside this model (\<open>None\<close>).
\<close>

definition save_with_new_task :: "task list \<Rightarrow> task \<Rightarrow> string \<Rightarrow> store \<Rightarrow> store option" where
  "save_with_new_task tasks t id_text st =
     (let parsed = List.map_filter parse_task
                     (read_lines (join_bar [id_text, t_subject t, t_title t, t_status t]))
      in if parsed = [] then Some (save_tasks tasks st)
         else if parsed = [(id_text, t_subject t, t_title t, t_status t)]
         then Some (save_tasks (tasks @ [t]) st)
         else None)"

text \<open>
  A raise of \<^verbatim>\<open>str(next_id)\<close> comes after the subject was appended, so the error has
  the store with it. The message of an added task is printed also when the task store
  is outside the model.
\<close>

definition cmd_add_task ::
  "date \<Rightarrow> string \<Rightarrow> string \<Rightarrow> store \<Rightarrow> py_error \<times> store + message \<times> store option" where
  "cmd_add_task today subject0 title0 st =
     (let subject = strip subject0; title = strip title0 in
      if subject = [] \<or> title = [] then Inr (Add_task_usage, Some st)
      else
        let st1 = (if lower subject \<notin> set (map lower (subjects_list st))
                   then append_subject subject st else st);
            tasks = tasks_list st1;
            next_id = next_task_id tasks
        in case py_str next_id of
             Inl err \<Rightarrow> Inl (err, st1)
           | Inr id_text \<Rightarrow>
               let new_task = \<lparr>t_id = next_id, t_subject = subject, t_title = title,
                                t_status = STATUS_TODO\<rparr>
               in Inr (Added_task next_id subject title,
                       map_option (upsert_review next_id 1 today (float_lit (5 / 2)))
                         (save_with_new_task tasks new_task id_text st1)))"

text \<open>
  The loop of \<^verbatim>\<open>cmd_update_status\<close>: the first task with the id gets the status and
  the loop returns; \<open>None\<close> when the loop ends without a match.
\<close>

fun set_status :: "int \<Rightarrow> string \<Rightarrow> task list \<Rightarrow> (task \<times> task list) option" where
  "set_status tid s [] = None"
| "set_status tid s (t # ts) =
     (if t_id t = tid then Some (t\<lparr>t_status := s\<rparr>, t\<lparr>t_status := s\<rparr> # ts)
      else (case set_status tid s ts of
              None \<Rightarrow> None
            | Some (u, us) \<Rightarrow> Some (u, t # us)))"

definition cmd_update_status :: "int \<Rightarrow> string \<Rightarrow> store \<Rightarrow> message \<times> store" where
  "cmd_update_status tid new_status st =
     (case set_status tid new_status (tasks_list st) of
        None \<Rightarrow> (Task_not_found tid, st)
      | Some (t, tasks) \<Rightarrow>
          (Task_updated tid (t_subject t) (t_title t) new_status, save_tasks tasks st))"

text \<open>A dict built from a list keeps the last value of a key.\<close>

definition dict_of :: "('k \<times> 'v) list \<Rightarrow> 'k \<Rightarrow> 'v option" where
  "dict_of kvs = map_of (rev kvs)"

fun overdue_flag :: "date \<Rightarrow> date option \<Rightarrow> flag" where
  "overdue_flag today None = NOFLAG"
| "overdue_flag today (Some d) = (if d < today then OVERDUE else NOFLAG)"

definition cmd_list_tasks :: "date \<Rightarrow> string option \<Rightarrow> string option \<Rightarrow> store \<Rightarrow> message" where
  "cmd_list_tasks today subject status st =
     (let tasks0 = tasks_list st;
          tasks1 = (case subject of
                      None \<Rightarrow> tasks0
                    | Some s \<Rightarrow> if s = [] then tasks0
                               else filter (\<lambda>t. lower (t_subject t) = lower s) tasks0);
          tasks2 = (case status of
                      None \<Rightarrow> tasks1
                    | Some s \<Rightarrow> if s = [] then tasks1
                               else filter (\<lambda>t. lower (t_status t) = lower s) tasks1)
      in if tasks2 = [] then No_matching_tasks
         else
           let due_map = dict_of (map (\<lambda>r. (task_id r, due r)) (load_reviews st))
           in Task_table
                (map (\<lambda>t. \<lparr>tr_task = t, tr_due = due_map (t_id t),
                             tr_flag = overdue_flag today
                               (if t_status t \<noteq> STATUS_DONE then due_map (t_id t) else None)\<rparr>)
                   tasks2))"

subsection \<open>The due query\<close>

text \<open>\<^verbatim>\<open>min(all_r, key=lambda r: r[2])\<close>: the first record of least due date.\<close>

fun min_by_due :: "review \<Rightarrow> review list \<Rightarrow> review" where
  "min_by_due m [] = m"
| "min_by_due m (r # rs) = min_by_due (if due r < due m then r else m) rs"

definition cmd_review_due :: "date \<Rightarrow> date option \<Rightarrow> store \<Rightarrow> message" where
  "cmd_review_due today on_opt st =
     (let on = (case on_opt of None \<Rightarrow> today | Some d \<Rightarrow> d);
          items = filter (\<lambda>r. due r \<le> on) (load_reviews st)
      in if items = [] then
           (case load_reviews st of
              [] \<Rightarrow> No_reviews_scheduled
            | r # rs \<Rightarrow> No_reviews_due (due (min_by_due r rs)))
         else
           let tasks = dict_of (map (\<lambda>t. (t_id t, t)) (tasks_list st))
           in Review_table
                (map (\<lambda>r. \<lparr>rr_review = r,
                             rr_subject = (case tasks (task_id r) of
                                             None \<Rightarrow> ''?'' | Some t \<Rightarrow> t_subject t),
                             rr_title = (case tasks (task_id r) of
                                           None \<Rightarrow> ''<missing>'' | Some t \<Rightarrow> t_title t),
                             rr_flag = (if due r < today then OVERDUE else DUE)\<rparr>)
                   (sort_key (\<lambda>r. (due r, task_id r)) items)))"

subsection \<open>Clearing files, and the \<^verbatim>\<open>done\<close> command\<close>

datatype data_file = SUBJECTS_FILE | TASKS_FILE | REVIEWS_FILE | SESSIONS_FILE

fun write_empty :: "data_file \<Rightarrow> store \<Rightarrow> store" where
  "write_empty SUBJECTS_FILE st = st\<lparr>subjects_file := []\<rparr>"
| "write_empty TASKS_FILE st = st\<lparr>tasks_file := []\<rparr>"
| "write_empty REVIEWS_FILE st = st\<lparr>reviews_file := []\<rparr>"
| "write_empty SESSIONS_FILE st = st\<lparr>sessions_file := []\<rparr>"

definition clear_mapping :: "(string \<times> data_file) list" where
  "clear_mapping = [(''subjects'', SUBJECTS_FILE), (''tasks'', TASKS_FILE),
                    (''reviews'', REVIEWS_FILE), (''sessions'', SESSIONS_FILE)]"

definition cmd_clear :: "string \<Rightarrow> store \<Rightarrow> message \<times> store" where
  "cmd_clear target st =
     (if target = ''all'' then (Cleared_all, fold write_empty (map snd clear_mapping) st)
      else (case map_of clear_mapping target of
              None \<Rightarrow> (Clear_usage, st)
            | Some p \<Rightarrow> (Cleared target, write_empty p st)))"

text \<open>
  The branch of \<^verbatim>\<open>main\<close> for \<^verbatim>\<open>done <task_id>\<close>: the status update, then a review
  of quality 4. A raise in the review leaves the files as the status update wrote them.
\<close>

definition main_done :: "date \<Rightarrow> int \<Rightarrow> store \<Rightarrow> py_error option \<times> message list \<times> store" where
  "main_done today tid st =
     (case cmd_update_status tid STATUS_DONE st of
        (m1, st1) \<Rightarrow>
          (case cmd_review today tid 4 st1 of
             Inl err \<Rightarrow> (Some err, [m1], st1)
           | Inr (m2, st2) \<Rightarrow> (None, [m1, m2], st2)))"

subsection \<open>A sample state\<close>

text \<open>
  Two tasks of one subject, the second one done and with a review date in the past, on
  the day of ordinal 738000.
\<close>

definition sample_store :: store where
  "sample_store =
     \<lparr>subjects_file = [''Math''],
      tasks_file =
        [\<lparr>t_id = 1, t_subject = ''Math'', t_title = ''Algebra'', t_status = ''todo''\<rparr>,
         \<lparr>t_id = 2, t_subject = ''Math'', t_title = ''Calculus'', t_status = ''done''\<rparr>],
      reviews_file =
        [\<lparr>task_id = 1, interval_days = 1, due = 738000, ease = Fin (5 / 2)\<rparr>,
         \<lparr>task_id = 2, interval_days = 6, due = 737990,
            ease = Fin (5854679515581645 / 2251799813685248)\<rparr>],
      sessions_file = []\<rparr>"

text \<open>Three tasks with the ids 1, 2 and 3, their reviews, and one logged session.\<close>

definition three_tasks_store :: store where
  "three_tasks_store =
     \<lparr>subjects_file = [''Math''],
      tasks_file =
        [\<lparr>t_id = 1, t_subject = ''Math'', t_title = ''Algebra'', t_status = ''todo''\<rparr>,
         \<lparr>t_id = 2, t_subject = ''Math'', t_title = ''Calculus'', t_status = ''todo''\<rparr>,
         \<lparr>t_id = 3, t_subject = ''Math'', t_title = ''Geometry'', t_status = ''todo''\<rparr>],
      reviews_file =
        [\<lparr>task_id = 1, interval_days = 1, due = 738000, ease = Fin (5 / 2)\<rparr>,
         \<lparr>task_id = 2, interval_days = 1, due = 738000, ease = Fin (5 / 2)\<rparr>,
         \<lparr>task_id = 3, interval_days = 1, due = 738000, ease = Fin (5 / 2)\<rparr>],
      sessions_file = [''2021-07-30|Math|1|30|''] \<rparr>"

section \<open>Evaluating the float operations\<close>

lemma floor_rat_numeral_divide:
  "\<lfloor>numeral a / numeral b :: rat\<rfloor> = numeral a div numeral b"
  by (metis floor_divide_of_int_eq of_int_numeral)

lemma floor_rat_one_divide:
  "\<lfloor>1 / numeral b :: rat\<rfloor> = 1 div numeral b"
  by (metis floor_divide_of_int_eq of_int_1 of_int_numeral)

lemma ceiling_rat_numeral_divide:
  "\<lceil>numeral a / numeral b :: rat\<rceil> = - (- numeral a div numeral b)"
  using ceiling_divide_eq_div[of "numeral a" "numeral b", where ?'a = rat] by simp

lemma ceiling_rat_one_divide:
  "\<lceil>1 / numeral b :: rat\<rceil> = - (- 1 div numeral b)"
  using ceiling_divide_eq_div[of "1" "numeral b", where ?'a = rat] by simp

lemmas float_eval0 = float_of_int_def float_lit_def rnd64_def round_mag_def ilog2_def rhe_def
  compute_bitlen fsub_def Let_def floor_rat_numeral_divide floor_rat_one_divide
  ceiling_rat_numeral_divide ceiling_rat_one_divide

lemmas float_eval = float_eval0 py_max_def

lemmas review_eval = cmd_review_def update_ease_def load_reviews_def upsert_review_def
  save_reviews_def date_plus_days_def valid_date_def float_eval

section \<open>The review store under \<^verbatim>\<open>upsert_review\<close> and \<^verbatim>\<open>cmd_review\<close>\<close>

lemma map_task_id_upsert_list:
  "map task_id (upsert_list new rs) =
     (if task_id new \<in> task_id ` set rs then map task_id rs else map task_id rs @ [task_id new])"
  by (induction rs) auto

lemma map_task_id_save_reviews [simp]:
  "map task_id (reviews_file (save_reviews rs st)) = map task_id rs"
  by (simp add: save_reviews_def comp_def)

lemma map_task_id_upsert_review:
  "map task_id (reviews_file (upsert_review tid i d e st)) =
     (if tid \<in> task_id ` set (reviews_file st) then map task_id (reviews_file st)
      else map task_id (reviews_file st) @ [tid])"
  by (simp add: upsert_review_def map_task_id_upsert_list load_reviews_def)

lemma cmd_review_InrD:
  assumes "cmd_review today tid q st = Inr (m, st')"
  shows "\<exists>i' d e'. m = Next_review tid i' d \<and> st' = upsert_review tid i' d e' st \<and>
           date_plus_days today i' = Inr d"
  using assms
  by (auto simp: cmd_review_def Let_def split: sum.splits option.splits if_splits prod.splits)

lemma count_one_if_distinct:
  "distinct (map f xs) \<Longrightarrow> k \<in> f ` set xs \<Longrightarrow> length (filter (\<lambda>x. f x = k) xs) = 1"
proof (induction xs)
  case Nil
  then show ?case by simp
next
  case (Cons a xs)
  show ?case
  proof (cases "f a = k")
    case True
    then have "k \<notin> f ` set xs" using Cons.prems(1) by auto
    then have "filter (\<lambda>x. f x = k) xs = []" by (auto simp: filter_empty_conv)
    then show ?thesis using True by simp
  next
    case False
    then show ?thesis using Cons by auto
  qed
qed

lemma sample_review_1_5:
  "cmd_review 738000 1 5 sample_store =
     Inr (Next_review 1 6 738006,
          sample_store\<lparr>reviews_file :=
            [\<lparr>task_id = 1, interval_days = 6, due = 738006,
               ease = Fin (5854679515581645 / 2251799813685248)\<rparr>,
             \<lparr>task_id = 2, interval_days = 6, due = 737990,
               ease = Fin (5854679515581645 / 2251799813685248)\<rparr>]\<rparr>)"
  by (simp add: sample_store_def review_eval)

text \<open>
  Claim C7. If the review store holds at most one record per task id, then after a review
  of task \<open>tid\<close> that returns it still holds at most one record per task id and exactly
  one for \<open>tid\<close>; the ids of the store are the old ones and \<open>tid\<close>. (A review that raises
  writes nothing.)
\<close>

theorem review_keeps_one_record_per_task:
  assumes "distinct (map task_id (reviews_file st))"
    and "cmd_review today tid q st = Inr (m, st')"
  shows "distinct (map task_id (reviews_file st')) \<and>
         length (filter (\<lambda>r. task_id r = tid) (reviews_file st')) = 1 \<and>
         set (map task_id (reviews_file st')) = insert tid (set (map task_id (reviews_file st)))"
proof -
  from assms(2) obtain i' d e' where st': "st' = upsert_review tid i' d e' st"
    using cmd_review_InrD by blast
  have ids: "map task_id (reviews_file st') =
     (if tid \<in> task_id ` set (reviews_file st) then map task_id (reviews_file st)
      else map task_id (reviews_file st) @ [tid])"
    unfolding st' by (rule map_task_id_upsert_review)
  have d: "distinct (map task_id (reviews_file st'))"
    using assms(1) by (auto simp: ids)
  have mem: "tid \<in> task_id ` set (reviews_file st')"
    using arg_cong[OF ids, of set] by (auto split: if_splits)
  have s: "set (map task_id (reviews_file st')) = insert tid (set (map task_id (reviews_file st)))"
    unfolding ids by auto
  show ?thesis using d count_one_if_distinct[OF d mem] s by simp
qed

theorem review_keeps_one_record_per_task_witness:
  "distinct (map task_id (reviews_file sample_store)) \<and>
   cmd_review 738000 1 5 sample_store =
     Inr (Next_review 1 6 738006,
          sample_store\<lparr>reviews_file :=
            [\<lparr>task_id = 1, interval_days = 6, due = 738006,
               ease = Fin (5854679515581645 / 2251799813685248)\<rparr>,
             \<lparr>task_id = 2, interval_days = 6, due = 737990,
               ease = Fin (5854679515581645 / 2251799813685248)\<rparr>]\<rparr>) \<and>
   distinct (map task_id
     [\<lparr>task_id = 1, interval_days = 6, due = 738006,
        ease = Fin (5854679515581645 / 2251799813685248)\<rparr>,
      \<lparr>task_id = 2, interval_days = 6, due = 737990,
        ease = Fin (5854679515581645 / 2251799813685248)\<rparr>]) \<and>
   length (filter (\<lambda>r. task_id r = 1)
     [\<lparr>task_id = 1, interval_days = 6, due = 738006,
        ease = Fin (5854679515581645 / 2251799813685248)\<rparr>,
      \<lparr>task_id = 2, interval_days = 6, due = 737990,
        ease = Fin (5854679515581645 / 2251799813685248)\<rparr>]) = 1"
proof -
  have h: "distinct (map task_id (reviews_file sample_store))"
    by (simp add: sample_store_def)
  show ?thesis
    using review_keeps_one_record_per_task [OF h sample_review_1_5] h sample_review_1_5
    by simp
qed

section \<open>Binary64 rounding is monotone\<close>

lemma ilog2_bounds:
  assumes "0 < x"
  shows "2 powi (ilog2 x) \<le> x" and "x < 2 powi (ilog2 x + 1)"
proof -
  have "2 powi (ilog2 x) \<le> x \<and> x < 2 powi (ilog2 x + 1)"
  proof (cases "1 \<le> x")
    case True
    define n where "n = \<lfloor>x\<rfloor>"
    have n1: "1 \<le> n" using True by (simp add: n_def le_floor_iff)
    then have n0: "0 < n" by simp
    have b1: "1 \<le> bitlen n" using n0 bitlen_nonneg[of n] bitlen_eq_zero_iff[of n] by linarith
    have il: "ilog2 x = bitlen n - 1" using True by (simp add: ilog2_def n_def)
    from bitlen_bounds[OF n0]
    have lo: "2 ^ nat (bitlen n - 1) \<le> n" and hi: "n < 2 ^ nat (bitlen n)" by auto
    have "(2::rat) powi (bitlen n - 1) = 2 ^ nat (bitlen n - 1)"
      using b1 by (simp add: power_int_nonneg_exp)
    also have "\<dots> = of_int (2 ^ nat (bitlen n - 1))" by simp
    also have "\<dots> \<le> of_int n" using lo by (simp only: of_int_le_iff)
    also have "\<dots> \<le> x" by (simp add: n_def)
    finally have A: "2 powi (ilog2 x) \<le> x" by (simp add: il)
    have "n + 1 \<le> 2 ^ nat (bitlen n)" using hi by simp
    then have "(of_int (n + 1) :: rat) \<le> of_int (2 ^ nat (bitlen n))" by (simp only: of_int_le_iff)
    moreover have "x < of_int (n + 1)" using floor_correct[of x] by (simp add: n_def)
    ultimately have "x < of_int (2 ^ nat (bitlen n))" by linarith
    also have "\<dots> = (2::rat) powi (bitlen n)"
      using b1 by (simp add: power_int_nonneg_exp)
    finally have B: "x < 2 powi (ilog2 x + 1)" by (simp add: il)
    from A B show ?thesis by simp
  next
    case False
    define y where "y = 1 / x"
    have y1: "1 < y" using False assms by (simp add: y_def)
    define m where "m = \<lceil>y\<rceil> - 1"
    have my: "of_int m < y" using ceiling_correct[of y] by (simp add: m_def)
    have ym: "y \<le> of_int (m + 1)" by (simp add: m_def)
    have "1 < \<lceil>y\<rceil>" using y1 by (simp add: less_ceiling_iff)
    then have m1: "1 \<le> m" by (simp add: m_def)
    then have m0: "0 < m" by simp
    have b1: "1 \<le> bitlen m" using m0 bitlen_nonneg[of m] bitlen_eq_zero_iff[of m] by linarith
    have il: "ilog2 x = - bitlen m" using False by (simp add: ilog2_def m_def y_def)
    from bitlen_bounds[OF m0]
    have lo: "2 ^ nat (bitlen m - 1) \<le> m" and hi: "m < 2 ^ nat (bitlen m)" by auto
    have "m + 1 \<le> 2 ^ nat (bitlen m)" using hi by simp
    then have "(of_int (m + 1) :: rat) \<le> of_int (2 ^ nat (bitlen m))" by (simp only: of_int_le_iff)
    then have "y \<le> 2 ^ nat (bitlen m)" using ym by simp
    then have "1 / x \<le> 2 ^ nat (bitlen m)" by (simp add: y_def)
    then have "1 \<le> 2 ^ nat (bitlen m) * x" using assms by (simp add: field_simps)
    then have "1 / 2 ^ nat (bitlen m) \<le> x" by (simp add: field_simps)
    moreover have "(2::rat) powi (- bitlen m) = 1 / 2 ^ nat (bitlen m)"
      using b1 by (simp add: power_int_def inverse_eq_divide power_one_over)
    ultimately have A: "2 powi (ilog2 x) \<le> x" by (simp add: il)
    have "(of_int (2 ^ nat (bitlen m - 1)) :: rat) \<le> of_int m" using lo by (simp only: of_int_le_iff)
    then have "(2::rat) ^ nat (bitlen m - 1) \<le> of_int m"
      by (simp only: of_int_power of_int_numeral)
    then have "2 ^ nat (bitlen m - 1) < y" using my by linarith
    then have "2 ^ nat (bitlen m - 1) < 1 / x" by (simp add: y_def)
    then have "2 ^ nat (bitlen m - 1) * x < 1" using assms by (simp add: field_simps)
    then have "x < 1 / 2 ^ nat (bitlen m - 1)" by (simp add: field_simps)
    moreover have "(2::rat) powi (- bitlen m + 1) = 1 / 2 ^ nat (bitlen m - 1)"
    proof -
      have "- bitlen m + 1 = - (bitlen m - 1)" by simp
      then have "(2::rat) powi (- bitlen m + 1) = inverse (2 powi (bitlen m - 1))"
        by (simp only: power_int_minus)
      also have "\<dots> = 1 / 2 ^ nat (bitlen m - 1)"
        using b1 by (simp add: power_int_nonneg_exp inverse_eq_divide)
      finally show ?thesis .
    qed
    ultimately have B: "x < 2 powi (ilog2 x + 1)" by (simp add: il)
    from A B show ?thesis by simp
  qed
  then show "2 powi (ilog2 x) \<le> x" and "x < 2 powi (ilog2 x + 1)" by simp_all
qed

lemma powi2_less_imp_less:
  assumes "(2::rat) powi a < 2 powi b" shows "a < b"
proof (rule ccontr)
  assume "\<not> a < b"
  then have "b \<le> a" by simp
  then have "(2::rat) powi b \<le> 2 powi a" by (intro power_int_increasing) auto
  with assms show False by simp
qed

lemma ilog2_unique:
  assumes "0 < x" "2 powi e \<le> x" "x < 2 powi (e + 1)"
  shows "ilog2 x = e"
proof -
  have "(2::rat) powi e < 2 powi (ilog2 x + 1)"
    using assms(2) ilog2_bounds(2)[OF assms(1)] by linarith
  then have 1: "e < ilog2 x + 1" by (rule powi2_less_imp_less)
  have "(2::rat) powi (ilog2 x) < 2 powi (e + 1)"
    using assms(3) ilog2_bounds(1)[OF assms(1)] by linarith
  then have 2: "ilog2 x < e + 1" by (rule powi2_less_imp_less)
  from 1 2 show ?thesis by simp
qed

lemma ilog2_mono:
  assumes "0 < x" "x \<le> y"
  shows "ilog2 x \<le> ilog2 y"
proof -
  have y0: "0 < y" using assms by simp
  have "(2::rat) powi (ilog2 x) < 2 powi (ilog2 y + 1)"
    using ilog2_bounds(1)[OF assms(1)] ilog2_bounds(2)[OF y0] assms(2) by linarith
  then have "ilog2 x < ilog2 y + 1" by (rule powi2_less_imp_less)
  then show ?thesis by simp
qed

lemma powi2_shift: "(2::rat) powi e = 2 ^ n * 2 powi (e - int n)"
proof -
  have "(2::rat) powi e = 2 powi (int n + (e - int n))" by simp
  also have "\<dots> = 2 powi (int n) * 2 powi (e - int n)" by (rule power_int_add) simp
  finally show ?thesis by simp
qed

lemma rhe_cases: "rhe x = \<lfloor>x\<rfloor> \<or> rhe x = \<lfloor>x\<rfloor> + 1"
  by (simp add: rhe_def Let_def)

lemma rhe_of_int [simp]: "rhe (of_int n) = n"
  by (simp add: rhe_def Let_def)

lemma rhe_ge: "of_int n \<le> x \<Longrightarrow> n \<le> rhe x"
proof -
  assume "of_int n \<le> x"
  then have "n \<le> \<lfloor>x\<rfloor>" by (simp add: le_floor_iff)
  then show ?thesis using rhe_cases[of x] by linarith
qed

lemma rhe_le: "x \<le> of_int n \<Longrightarrow> rhe x \<le> n"
proof (cases "x = of_int n")
  case True
  then show ?thesis by simp
next
  case False
  assume "x \<le> of_int n"
  with False have "x < of_int n" by simp
  then have "\<lfloor>x\<rfloor> < n" by (simp add: floor_less_iff)
  then show ?thesis using rhe_cases[of x] by linarith
qed

lemma rhe_mono:
  assumes "x \<le> y" shows "rhe x \<le> rhe y"
proof (cases "\<lfloor>x\<rfloor> < \<lfloor>y\<rfloor>")
  case True
  then show ?thesis using rhe_cases[of x] rhe_cases[of y] by linarith
next
  case False
  have "\<lfloor>x\<rfloor> \<le> \<lfloor>y\<rfloor>" using assms by (rule floor_mono)
  with False have eq: "\<lfloor>x\<rfloor> = \<lfloor>y\<rfloor>" by simp
  have fr: "x - of_int \<lfloor>y\<rfloor> \<le> y - of_int \<lfloor>y\<rfloor>" using assms by simp
  show ?thesis
    using fr by (auto simp: rhe_def Let_def eq)
qed

lemma rhe_nonneg: "0 \<le> x \<Longrightarrow> 0 \<le> rhe x"
  using rhe_ge[of 0 x] by simp

lemma rhe_close: "\<bar>of_int (rhe x) - x\<bar> \<le> 1 / 2"
proof -
  have "of_int \<lfloor>x\<rfloor> \<le> x" "x < of_int \<lfloor>x\<rfloor> + 1" using floor_correct[of x] by auto
  then show ?thesis by (auto simp: rhe_def Let_def abs_le_iff)
qed

text \<open>The unit in the last place of a positive rational.\<close>

lemma round_mag_eq:
  "round_mag x = of_int (rhe (x / 2 powi (max (ilog2 x) (- 1022) - 52))) *
                   2 powi (max (ilog2 x) (- 1022) - 52)"
  by (simp add: round_mag_def Let_def)

lemma round_mag_nonneg: "0 \<le> x \<Longrightarrow> 0 \<le> round_mag x"
  unfolding round_mag_eq
  by (intro mult_nonneg_nonneg) (auto intro!: rhe_nonneg divide_nonneg_pos)

lemma round_mag_upper:
  assumes "0 < x"
  shows "round_mag x \<le> 2 powi (max (ilog2 x) (- 1022) + 1)"
proof -
  define e where "e = max (ilog2 x) (- 1022)"
  define u :: rat where "u = 2 powi (e - 52)"
  have u0: "0 < u" by (simp add: u_def)
  have "x < 2 powi (ilog2 x + 1)" using ilog2_bounds(2)[OF assms] .
  also have "\<dots> \<le> 2 powi (e + 1)" by (intro power_int_increasing) (auto simp: e_def)
  also have "\<dots> = 2 ^ 53 * u"
    using powi2_shift[of "e + 1" 53] by (simp add: u_def)
  finally have "x / u \<le> 2 ^ 53" using u0 by (simp add: field_simps)
  then have "x / u \<le> of_int (2 ^ 53)" by simp
  then have "rhe (x / u) \<le> 2 ^ 53" by (rule rhe_le)
  then have "(of_int (rhe (x / u)) :: rat) \<le> of_int (2 ^ 53)" by (simp only: of_int_le_iff)
  then have "of_int (rhe (x / u)) * u \<le> 2 ^ 53 * u" using u0 by simp
  also have "2 ^ 53 * u = 2 powi (e + 1)"
    using powi2_shift[of "e + 1" 53] by (simp add: u_def)
  finally show ?thesis by (simp add: round_mag_eq e_def u_def)
qed

lemma round_mag_lower:
  assumes "0 < x" "- 1022 \<le> ilog2 x"
  shows "2 powi (ilog2 x) \<le> round_mag x"
proof -
  define e where "e = ilog2 x"
  define u :: rat where "u = 2 powi (e - 52)"
  have u0: "0 < u" by (simp add: u_def)
  have m: "max (ilog2 x) (- 1022) = e" using assms(2) by (simp add: e_def)
  have pe: "(2::rat) powi e = 2 ^ 52 * u"
    using powi2_shift[of e 52] by (simp add: u_def)
  have "2 powi e \<le> x" using ilog2_bounds(1)[OF assms(1)] by (simp add: e_def)
  then have "2 ^ 52 \<le> x / u" using u0 by (simp add: pe field_simps)
  then have "of_int (2 ^ 52) \<le> x / u" by simp
  then have "2 ^ 52 \<le> rhe (x / u)" by (rule rhe_ge)
  then have "(of_int (2 ^ 52) :: rat) \<le> of_int (rhe (x / u))" by (simp only: of_int_le_iff)
  then have A: "2 ^ 52 * u \<le> of_int (rhe (x / u)) * u" using u0 by simp
  have B: "round_mag x = of_int (rhe (x / u)) * u"
    unfolding round_mag_eq m u_def ..
  show ?thesis using A unfolding B pe[symmetric] e_def .
qed

lemma round_mag_mono:
  assumes "0 < x" "x \<le> y"
  shows "round_mag x \<le> round_mag y"
proof -
  have y0: "0 < y" using assms by simp
  define ex where "ex = max (ilog2 x) (- 1022)"
  define ey where "ey = max (ilog2 y) (- 1022)"
  have le: "ex \<le> ey" using ilog2_mono[OF assms] by (simp add: ex_def ey_def)
  show ?thesis
  proof (cases "ex = ey")
    case True
    define u :: rat where "u = 2 powi (ex - 52)"
    have u0: "0 < u" by (simp add: u_def)
    have "x / u \<le> y / u" using assms(2) u0 by (simp add: divide_right_mono)
    then have "rhe (x / u) \<le> rhe (y / u)" by (rule rhe_mono)
    then have "(of_int (rhe (x / u)) :: rat) \<le> of_int (rhe (y / u))" by (simp only: of_int_le_iff)
    then have "of_int (rhe (x / u)) * u \<le> of_int (rhe (y / u)) * u" using u0 by simp
    then show ?thesis using True by (simp add: round_mag_eq u_def ex_def ey_def)
  next
    case False
    with le have lt: "ex < ey" by simp
    then have ey: "ey = ilog2 y" "- 1022 \<le> ilog2 y" by (auto simp: ex_def ey_def)
    have "round_mag x \<le> 2 powi (ex + 1)" using round_mag_upper[OF assms(1)] by (simp add: ex_def)
    also have "\<dots> \<le> 2 powi ey" using lt by (intro power_int_increasing) auto
    also have "\<dots> \<le> round_mag y" using round_mag_lower[OF y0 ey(2)] by (simp add: ey(1))
    finally show ?thesis .
  qed
qed

lemma rnd64_mono:
  assumes "x \<le> y" shows "fle (rnd64 x) (rnd64 y)"
proof -
  consider "x < 0" "y < 0" | "x < 0" "y = 0" | "x < 0" "0 < y" | "x = 0" "y = 0" | "x = 0" "0 < y"
    | "0 < x" "0 < y" using assms by linarith
  then show ?thesis
  proof cases
    case 1
    then have "0 < - y" "- y \<le> - x" using assms by auto
    from round_mag_mono[OF this] have "round_mag \<bar>y\<bar> \<le> round_mag \<bar>x\<bar>" using 1 by simp
    then show ?thesis using 1 by (auto simp: rnd64_def Let_def)
  next
    case 2
    have "0 \<le> round_mag \<bar>x\<bar>" by (rule round_mag_nonneg) simp
    then show ?thesis using 2 by (auto simp: rnd64_def Let_def)
  next
    case 3
    have "0 \<le> round_mag \<bar>x\<bar>" "0 \<le> round_mag \<bar>y\<bar>" by (rule round_mag_nonneg, simp)+
    then show ?thesis using 3 by (auto simp: rnd64_def Let_def)
  next
    case 4
    then show ?thesis by (simp add: rnd64_def)
  next
    case 5
    have "0 \<le> round_mag \<bar>y\<bar>" by (rule round_mag_nonneg) simp
    then show ?thesis using 5 by (auto simp: rnd64_def Let_def)
  next
    case 6
    from round_mag_mono[OF 6(1) assms] have "round_mag \<bar>x\<bar> \<le> round_mag \<bar>y\<bar>" using 6 by simp
    then show ?thesis using 6 by (auto simp: rnd64_def Let_def)
  qed
qed

lemma rnd64_uminus: "rnd64 (- x) = fneg (rnd64 x)"
  by (auto simp: rnd64_def Let_def)

lemma rnd64_overflow_point: "rnd64 (2 ^ 1024 - 2 ^ 970) = PInf"
  by (simp add: float_eval)

lemma rnd64_largest_int:
  "rnd64 (2 ^ 1024 - 2 ^ 970 - 1) = Fin (2 ^ 1024 - 2 ^ 971)"
  by (simp add: float_eval)

lemma fle_PInf_iff: "fle PInf z \<longleftrightarrow> z = PInf"
  by (cases z) auto

lemma fle_NInf_iff: "fle z NInf \<longleftrightarrow> z = NInf"
  by (cases z) auto

lemma fle_Fin_D: "fle z (Fin b) \<Longrightarrow> z = NInf \<or> (\<exists>a. z = Fin a \<and> a \<le> b)"
  by (cases z) auto

lemma fle_Fin_D2: "fle (Fin a) z \<Longrightarrow> z = PInf \<or> (\<exists>b. z = Fin b \<and> a \<le> b)"
  by (cases z) auto

lemma rnd64_not_NaN [simp]: "rnd64 x \<noteq> NaN"
  by (simp add: rnd64_def Let_def)

lemma float_of_int_overflow_iff:
  "float_of_int n = Inl OverflowError \<longleftrightarrow> 2 ^ 1024 - 2 ^ 970 \<le> \<bar>n\<bar>"
proof -
  have pos: "rnd64 (of_int k) = PInf \<longleftrightarrow> 2 ^ 1024 - 2 ^ 970 \<le> k" if "0 \<le> k" for k :: int
  proof
    assume inf: "rnd64 (of_int k) = PInf"
    show "2 ^ 1024 - 2 ^ 970 \<le> k"
    proof (rule ccontr)
      assume "\<not> 2 ^ 1024 - 2 ^ 970 \<le> k"
      then have "k \<le> 2 ^ 1024 - 2 ^ 970 - 1" by simp
      then have "(of_int k :: rat) \<le> of_int (2 ^ 1024 - 2 ^ 970 - 1)" by (simp only: of_int_le_iff)
      then have "(of_int k :: rat) \<le> 2 ^ 1024 - 2 ^ 970 - 1" by simp
      from rnd64_mono[OF this] have "fle PInf (Fin (2 ^ 1024 - 2 ^ 971))"
        unfolding inf rnd64_largest_int .
      then show False by simp
    qed
  next
    assume "2 ^ 1024 - 2 ^ 970 \<le> k"
    then have "(of_int (2 ^ 1024 - 2 ^ 970) :: rat) \<le> of_int k" by (simp only: of_int_le_iff)
    then have "(2 ^ 1024 - 2 ^ 970 :: rat) \<le> of_int k" by simp
    from rnd64_mono[OF this] have "fle PInf (rnd64 (of_int k))"
      unfolding rnd64_overflow_point .
    then show "rnd64 (of_int k) = PInf" by (simp only: fle_PInf_iff)
  qed
  have nonneg: "rnd64 (of_int k) \<noteq> NInf" if "0 \<le> k" for k :: int
    using that by (auto simp: rnd64_def Let_def)
  show ?thesis
  proof (cases "0 \<le> n")
    case True
    then show ?thesis using pos[OF True] nonneg[OF True]
      by (cases "rnd64 (of_int n)") (auto simp: float_of_int_def)
  next
    case False
    then have m: "0 \<le> - n" by simp
    have r: "rnd64 (of_int n) = fneg (rnd64 (of_int (- n)))"
      using rnd64_uminus[of "of_int (- n)"] by simp
    show ?thesis using pos[OF m] nonneg[OF m] False
      by (cases "rnd64 (of_int (- n))") (auto simp: float_of_int_def r)
  qed
qed

lemma float_of_int_cases:
  "float_of_int n = Inl OverflowError \<or> (\<exists>r. float_of_int n = Inr (Fin r))"
  by (cases "rnd64 (of_int n)") (auto simp: float_of_int_def)

section \<open>The ease update\<close>

lemma update_ease_eq:
  "float_of_int (5 - q) = Inr k \<Longrightarrow>
   update_ease e q =
     Inr (py_max (float_lit (13 / 10))
            (fadd e (fsub (float_lit (1 / 10))
                       (fmul k (fadd (float_lit (8 / 100)) (fmul k (float_lit (2 / 100))))))))"
  by (simp add: update_ease_def)

lemma update_ease_5: "update_ease e 5 = Inr (py_max (float_lit (13 / 10)) (fadd e (float_lit (1 / 10))))"
  by (simp add: update_ease_def float_eval0)

lemma update_ease_4: "update_ease e 4 = Inr (py_max (float_lit (13 / 10)) (fadd e (Fin 0)))"
  by (simp add: update_ease_def float_eval0)

lemma update_ease_3:
  "update_ease e 3 = Inr (py_max (float_lit (13 / 10))
     (fadd e (Fin (- (5044031582654955 / 36028797018963968)))))"
  by (simp add: update_ease_def float_eval0)

lemma update_ease_2:
  "update_ease e 2 = Inr (py_max (float_lit (13 / 10))
     (fadd e (Fin (- (1441151880758559 / 4503599627370496)))))"
  by (simp add: update_ease_def float_eval0)

lemma update_ease_1:
  "update_ease e 1 = Inr (py_max (float_lit (13 / 10))
     (fadd e (Fin (- (607985949695017 / 1125899906842624)))))"
  by (simp add: update_ease_def float_eval0)

lemma update_ease_0:
  "update_ease e 0 = Inr (py_max (float_lit (13 / 10))
     (fadd e (Fin (- (7205759403792793 / 9007199254740992)))))"
  by (simp add: update_ease_def float_eval0)

lemma float_lit_13_10: "float_lit (13 / 10) = Fin (5854679515581645 / 4503599627370496)"
  by (simp add: float_eval0)

lemma float_lit_1_10: "float_lit (1 / 10) = Fin (3602879701896397 / 36028797018963968)"
  by (simp add: float_eval0)

lemma fadd_mono_right:
  assumes "a \<le> b"
  shows "fadd e (Fin a) = NaN \<and> fadd e (Fin b) = NaN \<or> fle (fadd e (Fin a)) (fadd e (Fin b))"
proof (cases e)
  case (Fin x)
  have "x + a \<le> x + b" using assms by simp
  from rnd64_mono[OF this] show ?thesis by (simp add: Fin)
qed auto

lemma py_max_mono:
  assumes "y = NaN \<and> z = NaN \<or> fle y z"
  shows "fle (py_max (Fin c) y) (py_max (Fin c) z)"
  using assms by (cases y; cases z) (auto simp: py_max_def)

lemma py_max_ge: "fle (Fin c) (py_max (Fin c) z)"
  by (cases z) (auto simp: py_max_def)

lemma update_ease_step:
  assumes "a \<le> b"
  shows "fle (py_max (float_lit (13 / 10)) (fadd e (Fin a)))
             (py_max (float_lit (13 / 10)) (fadd e (Fin b)))"
  unfolding float_lit_13_10 by (rule py_max_mono) (rule fadd_mono_right[OF assms])

lemma update_ease_ge:
  assumes "update_ease e q = Inr a"
  shows "fle (float_lit (13 / 10)) a"
proof -
  from assms obtain z where "a = py_max (float_lit (13 / 10)) z"
    by (auto simp: update_ease_def Let_def split: sum.splits)
  then show ?thesis unfolding float_lit_13_10 by (simp add: py_max_ge)
qed

text \<open>
  Claim C9. For every ease, the updated ease does not decrease when the quality goes from
  \<open>q\<close> to \<open>q + 1\<close>, for \<open>q\<close> from 0 to 4, in the order of Python's \<^verbatim>\<open><=\<close>; and
  whatever the quality, an updated ease is at least the float \<^verbatim>\<open>1.3\<close>.
\<close>

theorem update_ease_monotone_in_quality:
  "(0 \<le> q \<and> q < 5 \<longrightarrow>
      (\<exists>a b. update_ease e q = Inr a \<and> update_ease e (q + 1) = Inr b \<and> fle a b)) \<and>
   (\<forall>a. update_ease e q = Inr a \<longrightarrow> fle (float_lit (13 / 10)) a)"
proof (intro conjI impI allI)
  assume "0 \<le> q \<and> q < 5"
  then consider "q = 0" | "q = 1" | "q = 2" | "q = 3" | "q = 4" by linarith
  then show "\<exists>a b. update_ease e q = Inr a \<and> update_ease e (q + 1) = Inr b \<and> fle a b"
  proof cases
    case 1
    show ?thesis unfolding 1 by (simp add: update_ease_0 update_ease_1 update_ease_step)
  next
    case 2
    show ?thesis unfolding 2 by (simp add: update_ease_1 update_ease_2 update_ease_step)
  next
    case 3
    show ?thesis unfolding 3 by (simp add: update_ease_2 update_ease_3 update_ease_step)
  next
    case 4
    show ?thesis unfolding 4 by (simp add: update_ease_3 update_ease_4 update_ease_step)
  next
    case 5
    show ?thesis unfolding 5
      by (simp add: update_ease_4 update_ease_5 float_lit_1_10 update_ease_step)
  qed
next
  fix a assume "update_ease e q = Inr a"
  then show "fle (float_lit (13 / 10)) a" by (rule update_ease_ge)
qed

theorem update_ease_monotone_in_quality_witness:
  "(0::int) \<le> 2 \<and> (2::int) < 5 \<and>
   update_ease (Fin (5 / 2)) 2 = Inr (Fin (306807724614615 / 140737488355328)) \<and>
   update_ease (Fin (5 / 2)) (2 + 1) = Inr (Fin (5314247560297185 / 2251799813685248)) \<and>
   fle (Fin (306807724614615 / 140737488355328)) (Fin (5314247560297185 / 2251799813685248)) \<and>
   fle (float_lit (13 / 10)) (Fin (306807724614615 / 140737488355328))"
  using update_ease_monotone_in_quality [of 2 "Fin (5 / 2)"]
  by (simp add: update_ease_def float_eval)

section \<open>The review command\<close>

lemma find_upsert_list:
  "find (\<lambda>r. task_id r = task_id new) (upsert_list new rs) = Some new"
  by (induction rs) auto

lemma find_map_stored:
  "find (\<lambda>r. task_id r = tid) (map (\<lambda>r. r\<lparr>ease := stored_ease (ease r)\<rparr>) rs) =
     map_option (\<lambda>r. r\<lparr>ease := stored_ease (ease r)\<rparr>) (find (\<lambda>r. task_id r = tid) rs)"
  by (induction rs) auto

lemma find_upsert_review:
  "find (\<lambda>r. task_id r = tid) (reviews_file (upsert_review tid i d e st)) =
     Some \<lparr>task_id = tid, interval_days = i, due = d, ease = stored_ease e\<rparr>"
  using find_upsert_list[of "\<lparr>task_id = tid, interval_days = i, due = d, ease = e\<rparr>" "reviews_file st"]
  by (simp add: upsert_review_def save_reviews_def load_reviews_def find_map_stored)

lemma upsert_review_other_files [simp]:
  "tasks_file (upsert_review tid i d e st) = tasks_file st"
  "subjects_file (upsert_review tid i d e st) = subjects_file st"
  "sessions_file (upsert_review tid i d e st) = sessions_file st"
  by (simp_all add: upsert_review_def save_reviews_def)

lemma date_plus_days_InrD: "date_plus_days t n = Inr d \<Longrightarrow> d = t + n \<and> valid_date (t + n)"
  by (auto simp: date_plus_days_def split: if_splits)

text \<open>What a review that returns has computed, step by step.\<close>

lemma cmd_review_Inr_iff:
  "cmd_review today tid q st = Inr (m, st') \<longleftrightarrow>
     (\<exists>e' i' d.
        update_ease (case find (\<lambda>r. task_id r = tid) (reviews_file st) of
                       None \<Rightarrow> float_lit (5 / 2) | Some r \<Rightarrow> ease r) q = Inr e' \<and>
        (if q < 3 then Inr 1
         else if (case find (\<lambda>r. task_id r = tid) (reviews_file st) of
                    None \<Rightarrow> 1 | Some r \<Rightarrow> interval_days r) \<in> {0, 1} then Inr 6
         else (case float_of_int (case find (\<lambda>r. task_id r = tid) (reviews_file st) of
                    None \<Rightarrow> 1 | Some r \<Rightarrow> interval_days r) of
                 Inl err \<Rightarrow> Inl err
               | Inr fi \<Rightarrow> (case py_round (fmul fi e') of
                              Inl err \<Rightarrow> Inl err
                            | Inr n \<Rightarrow> Inr (max 1 n)))) = Inr i' \<and>
        date_plus_days today i' = Inr d \<and>
        m = Next_review tid i' d \<and> st' = upsert_review tid i' d e' st)"
  by (cases "find (\<lambda>r. task_id r = tid) (reviews_file st)")
     (auto simp: cmd_review_def load_reviews_def Let_def split: sum.splits)

lemma sample_review_2_4:
  "cmd_review 738000 2 4 sample_store =
     Inr (Next_review 2 16 738016,
          sample_store\<lparr>reviews_file :=
            [\<lparr>task_id = 1, interval_days = 1, due = 738000, ease = Fin (5 / 2)\<rparr>,
             \<lparr>task_id = 2, interval_days = 16, due = 738016,
               ease = Fin (5854679515581645 / 2251799813685248)\<rparr>]\<rparr>)"
  by (simp add: sample_store_def review_eval)

lemma sample_review_99_5:
  "cmd_review 738000 99 5 sample_store =
     Inr (Next_review 99 6 738006,
          sample_store\<lparr>reviews_file :=
            [\<lparr>task_id = 1, interval_days = 1, due = 738000, ease = Fin (5 / 2)\<rparr>,
             \<lparr>task_id = 2, interval_days = 6, due = 737990,
               ease = Fin (5854679515581645 / 2251799813685248)\<rparr>,
             \<lparr>task_id = 99, interval_days = 6, due = 738006,
               ease = Fin (5854679515581645 / 2251799813685248)\<rparr>]\<rparr>)"
  by (simp add: sample_store_def review_eval)

text \<open>What a review that returns prints and stores, and the rule for the new interval.\<close>

lemma cmd_review_result:
  assumes "cmd_review today tid q st = Inr (m, st')"
    and "i = (case find (\<lambda>r. task_id r = tid) (reviews_file st) of
                None \<Rightarrow> 1 | Some r \<Rightarrow> interval_days r)"
    and "e = (case find (\<lambda>r. task_id r = tid) (reviews_file st) of
                None \<Rightarrow> float_lit (5 / 2) | Some r \<Rightarrow> ease r)"
  shows "\<exists>e' i' d.
           update_ease e q = Inr e' \<and> m = Next_review tid i' d \<and>
           find (\<lambda>r. task_id r = tid) (reviews_file st') =
             Some \<lparr>task_id = tid, interval_days = i', due = d, ease = stored_ease e'\<rparr> \<and>
           (q < 3 \<longrightarrow> i' = 1) \<and>
           (3 \<le> q \<and> (i = 0 \<or> i = 1) \<longrightarrow> i' = 6) \<and>
           (3 \<le> q \<and> i \<noteq> 0 \<and> i \<noteq> 1 \<longrightarrow>
              (\<exists>fi n. float_of_int i = Inr fi \<and> py_round (fmul fi e') = Inr n \<and> i' = max 1 n)) \<and>
           1 \<le> i'"
proof -
  from assms(1) obtain e' i' d where
    ue: "update_ease e q = Inr e'"
    and iv: "(if q < 3 then Inr 1
         else if i \<in> {0, 1} then Inr 6
         else (case float_of_int i of
                 Inl err \<Rightarrow> Inl err
               | Inr fi \<Rightarrow> (case py_round (fmul fi e') of
                              Inl err \<Rightarrow> Inl err
                            | Inr n \<Rightarrow> Inr (max 1 n)))) = (Inr i' :: py_error + int)"
    and m: "m = Next_review tid i' d" and st': "st' = upsert_review tid i' d e' st"
    unfolding cmd_review_Inr_iff assms(2) assms(3) by blast
  have f: "find (\<lambda>r. task_id r = tid) (reviews_file st') =
             Some \<lparr>task_id = tid, interval_days = i', due = d, ease = stored_ease e'\<rparr>"
    unfolding st' by (rule find_upsert_review)
  have r1: "q < 3 \<longrightarrow> i' = 1" using iv by auto
  have r2: "3 \<le> q \<and> (i = 0 \<or> i = 1) \<longrightarrow> i' = 6" using iv by auto
  have r3: "3 \<le> q \<and> i \<noteq> 0 \<and> i \<noteq> 1 \<longrightarrow>
              (\<exists>fi n. float_of_int i = Inr fi \<and> py_round (fmul fi e') = Inr n \<and> i' = max 1 n)"
    using iv by (auto split: sum.splits if_splits)
  have r4: "1 \<le> i'" using iv by (auto split: sum.splits if_splits)
  show ?thesis using ue m f r1 r2 r3 r4 by blast
qed

text \<open>
  A review returns whenever the quality converts to a float, the new interval is 1 or 6
  and the due date is a date.
\<close>

lemma cmd_review_returns:
  assumes "\<bar>5 - q\<bar> < 2 ^ 1024 - 2 ^ 970"
    and "q < 3 \<or> (case find (\<lambda>r. task_id r = tid) (reviews_file st) of
                     None \<Rightarrow> 1 | Some r \<Rightarrow> interval_days r) \<in> {0, 1}"
    and "1 \<le> today" and "today \<le> 3652053"
  shows "\<exists>i' d st'. cmd_review today tid q st = Inr (Next_review tid i' d, st')"
proof -
  have "float_of_int (5 - q) \<noteq> Inl OverflowError"
    using assms(1) by (simp add: float_of_int_overflow_iff)
  then obtain k where k: "float_of_int (5 - q) = Inr (Fin k)"
    using float_of_int_cases[of "5 - q"] by auto
  then obtain e' where ue: "update_ease (case find (\<lambda>r. task_id r = tid) (reviews_file st) of
                       None \<Rightarrow> float_lit (5 / 2) | Some r \<Rightarrow> ease r) q = Inr e'"
    by (simp add: update_ease_def Let_def)
  show ?thesis
  proof (cases "q < 3")
    case True
    have "date_plus_days today 1 = Inr (today + 1)"
      using assms(3,4) by (simp add: date_plus_days_def valid_date_def)
    then have "cmd_review today tid q st = Inr (Next_review tid 1 (today + 1), upsert_review tid 1 (today + 1) e' st)"
      unfolding cmd_review_Inr_iff using ue True by auto
    then show ?thesis by blast
  next
    case False
    have "date_plus_days today 6 = Inr (today + 6)"
      using assms(3,4) by (simp add: date_plus_days_def valid_date_def)
    then have "cmd_review today tid q st = Inr (Next_review tid 6 (today + 6), upsert_review tid 6 (today + 6) e' st)"
      unfolding cmd_review_Inr_iff using ue False assms(2) by auto
    then show ?thesis by blast
  qed
qed

text \<open>
  Claim C1. A review that returns, from the prior interval \<open>i\<close> and the updated ease
  \<open>e'\<close>, prints and stores the interval 1 when the quality is below 3, the interval 6
  when the quality is at least 3 and \<open>i\<close> is 0 or 1, and otherwise the greater of 1 and
  \<^verbatim>\<open>round(i * e')\<close>; the new interval is at least 1 in every case. The prior
  interval and ease are those of the first record of the task, or 1 and 2.5.
  A review returns whenever the quality converts to a float, the new interval is 1 or 6
  and the due date is a date.
\<close>

theorem review_interval_rule:
  assumes "i = (case find (\<lambda>r. task_id r = tid) (reviews_file st) of
                None \<Rightarrow> 1 | Some r \<Rightarrow> interval_days r)"
    and "e = (case find (\<lambda>r. task_id r = tid) (reviews_file st) of
                None \<Rightarrow> float_lit (5 / 2) | Some r \<Rightarrow> ease r)"
  shows "(\<forall>m st'. cmd_review today tid q st = Inr (m, st') \<longrightarrow>
           (\<exists>e' i' d.
              update_ease e q = Inr e' \<and> m = Next_review tid i' d \<and>
              find (\<lambda>r. task_id r = tid) (reviews_file st') =
                Some \<lparr>task_id = tid, interval_days = i', due = d, ease = stored_ease e'\<rparr> \<and>
              (q < 3 \<longrightarrow> i' = 1) \<and>
              (3 \<le> q \<and> (i = 0 \<or> i = 1) \<longrightarrow> i' = 6) \<and>
              (3 \<le> q \<and> i \<noteq> 0 \<and> i \<noteq> 1 \<longrightarrow>
                 (\<exists>fi n. float_of_int i = Inr fi \<and> py_round (fmul fi e') = Inr n \<and>
                         i' = max 1 n)) \<and>
              1 \<le> i')) \<and>
         (\<bar>5 - q\<bar> < 2 ^ 1024 - 2 ^ 970 \<and> (q < 3 \<or> i = 0 \<or> i = 1) \<and>
          1 \<le> today \<and> today \<le> 3652053 \<longrightarrow>
            (\<exists>i' d st'. cmd_review today tid q st = Inr (Next_review tid i' d, st')))"
proof (intro conjI allI impI)
  fix m st' assume "cmd_review today tid q st = Inr (m, st')"
  from cmd_review_result [OF this assms]
  show "\<exists>e' i' d.
              update_ease e q = Inr e' \<and> m = Next_review tid i' d \<and>
              find (\<lambda>r. task_id r = tid) (reviews_file st') =
                Some \<lparr>task_id = tid, interval_days = i', due = d, ease = stored_ease e'\<rparr> \<and>
              (q < 3 \<longrightarrow> i' = 1) \<and>
              (3 \<le> q \<and> (i = 0 \<or> i = 1) \<longrightarrow> i' = 6) \<and>
              (3 \<le> q \<and> i \<noteq> 0 \<and> i \<noteq> 1 \<longrightarrow>
                 (\<exists>fi n. float_of_int i = Inr fi \<and> py_round (fmul fi e') = Inr n \<and>
                         i' = max 1 n)) \<and>
              1 \<le> i'" .
next
  assume a: "\<bar>5 - q\<bar> < 2 ^ 1024 - 2 ^ 970 \<and> (q < 3 \<or> i = 0 \<or> i = 1) \<and>
          1 \<le> today \<and> today \<le> 3652053"
  show "\<exists>i' d st'. cmd_review today tid q st = Inr (Next_review tid i' d, st')"
    by (rule cmd_review_returns) (use a assms(1) in auto)
qed

theorem review_interval_rule_witness:
  "cmd_review 738000 2 4 sample_store =
     Inr (Next_review 2 16 738016,
          sample_store\<lparr>reviews_file :=
            [\<lparr>task_id = 1, interval_days = 1, due = 738000, ease = Fin (5 / 2)\<rparr>,
             \<lparr>task_id = 2, interval_days = 16, due = 738016,
               ease = Fin (5854679515581645 / 2251799813685248)\<rparr>]\<rparr>) \<and>
   (\<exists>e' fi n.
      update_ease (Fin (5854679515581645 / 2251799813685248)) 4 = Inr e' \<and>
      float_of_int 6 = Inr fi \<and> py_round (fmul fi e') = Inr n \<and> (16::int) = max 1 n)"
proof -
  have i: "(case find (\<lambda>r. task_id r = 2) (reviews_file sample_store) of
              None \<Rightarrow> 1 | Some r \<Rightarrow> interval_days r) = 6"
    and e: "(case find (\<lambda>r. task_id r = 2) (reviews_file sample_store) of
              None \<Rightarrow> float_lit (5 / 2) | Some r \<Rightarrow> ease r) =
            Fin (5854679515581645 / 2251799813685248)"
    by (simp_all add: sample_store_def)
  have "\<forall>m st'. cmd_review 738000 2 4 sample_store = Inr (m, st') \<longrightarrow>
           (\<exists>e' i' d.
              update_ease (Fin (5854679515581645 / 2251799813685248)) 4 = Inr e' \<and>
              m = Next_review 2 i' d \<and>
              find (\<lambda>r. task_id r = 2) (reviews_file st') =
                Some \<lparr>task_id = 2, interval_days = i', due = d, ease = stored_ease e'\<rparr> \<and>
              ((4::int) < 3 \<longrightarrow> i' = 1) \<and>
              ((3::int) \<le> 4 \<and> ((6::int) = 0 \<or> (6::int) = 1) \<longrightarrow> i' = 6) \<and>
              ((3::int) \<le> 4 \<and> (6::int) \<noteq> 0 \<and> (6::int) \<noteq> 1 \<longrightarrow>
                 (\<exists>fi n. float_of_int 6 = Inr fi \<and> py_round (fmul fi e') = Inr n \<and>
                         i' = max 1 n)) \<and>
              1 \<le> i')"
    using review_interval_rule [OF i [symmetric] e [symmetric], of 738000 4] by blast
  then show ?thesis using sample_review_2_4 by auto
qed

lemma upsert_list_absent:
  "find (\<lambda>r. task_id r = task_id new) rs = None \<Longrightarrow> upsert_list new rs = rs @ [new]"
  by (induction rs) (auto split: if_splits)

text \<open>A review of a task without a record, and the due date of every review.\<close>

lemma cmd_review_defaults_result:
  assumes "cmd_review today tid q st = Inr (m, st')"
  shows "(find (\<lambda>r. task_id r = tid) (reviews_file st) = None \<longrightarrow>
            (\<exists>e'. update_ease (float_lit (5 / 2)) q = Inr e' \<and>
                  m = Next_review tid (if q < 3 then 1 else 6) (today + (if q < 3 then 1 else 6)) \<and>
                  reviews_file st' =
                    map (\<lambda>r. r\<lparr>ease := stored_ease (ease r)\<rparr>) (reviews_file st) @
                    [\<lparr>task_id = tid, interval_days = (if q < 3 then 1 else 6),
                       due = today + (if q < 3 then 1 else 6), ease = stored_ease e'\<rparr>])) \<and>
         (\<exists>i' e'. m = Next_review tid i' (today + i') \<and>
                  find (\<lambda>r. task_id r = tid) (reviews_file st') =
                    Some \<lparr>task_id = tid, interval_days = i', due = today + i', ease = e'\<rparr>)"
proof (intro conjI impI)
  assume none: "find (\<lambda>r. task_id r = tid) (reviews_file st) = None"
  from assms obtain e' i' d where
    ue: "update_ease (float_lit (5 / 2)) q = Inr e'"
    and iv: "i' = (if q < 3 then 1 else 6)"
    and d: "date_plus_days today i' = Inr d"
    and m: "m = Next_review tid i' d" and st': "st' = upsert_review tid i' d e' st"
    unfolding cmd_review_Inr_iff none by (auto split: if_splits)
  have dd: "d = today + i'" using date_plus_days_InrD[OF d] by simp
  have "upsert_list \<lparr>task_id = tid, interval_days = i', due = d, ease = e'\<rparr> (reviews_file st) =
          reviews_file st @ [\<lparr>task_id = tid, interval_days = i', due = d, ease = e'\<rparr>]"
    by (rule upsert_list_absent) (simp add: none)
  then have "reviews_file st' =
      map (\<lambda>r. r\<lparr>ease := stored_ease (ease r)\<rparr>) (reviews_file st) @
      [\<lparr>task_id = tid, interval_days = i', due = d, ease = stored_ease e'\<rparr>]"
    by (simp add: st' upsert_review_def save_reviews_def load_reviews_def)
  then show "\<exists>e'. update_ease (float_lit (5 / 2)) q = Inr e' \<and>
                  m = Next_review tid (if q < 3 then 1 else 6) (today + (if q < 3 then 1 else 6)) \<and>
                  reviews_file st' =
                    map (\<lambda>r. r\<lparr>ease := stored_ease (ease r)\<rparr>) (reviews_file st) @
                    [\<lparr>task_id = tid, interval_days = (if q < 3 then 1 else 6),
                       due = today + (if q < 3 then 1 else 6), ease = stored_ease e'\<rparr>]"
    using ue m unfolding dd iv by blast
next
  from assms obtain e' i' d where
    d: "date_plus_days today i' = Inr d"
    and m: "m = Next_review tid i' d" and st': "st' = upsert_review tid i' d e' st"
    unfolding cmd_review_Inr_iff by blast
  have dd: "d = today + i'" using date_plus_days_InrD[OF d] by simp
  show "\<exists>i' e'. m = Next_review tid i' (today + i') \<and>
                  find (\<lambda>r. task_id r = tid) (reviews_file st') =
                    Some \<lparr>task_id = tid, interval_days = i', due = today + i', ease = e'\<rparr>"
    using m find_upsert_review[of tid i' d e' st] unfolding st' dd by blast
qed

text \<open>
  Claim C6. A review of a task with no record in the review store that returns has started
  from the interval 1 and the ease 2.5: the new interval is 1 or 6 by the quality, the
  ease is the update of 2.5, and the record is appended. In every case the due date that
  is printed and stored is today plus the new interval.
  Such a review returns whenever the quality converts to a float and today plus 6 is a
  date.
\<close>

theorem review_starts_from_defaults:
  "(\<forall>m st'. cmd_review today tid q st = Inr (m, st') \<longrightarrow>
      (find (\<lambda>r. task_id r = tid) (reviews_file st) = None \<longrightarrow>
               (\<exists>e'. update_ease (float_lit (5 / 2)) q = Inr e' \<and>
                     m = Next_review tid (if q < 3 then 1 else 6) (today + (if q < 3 then 1 else 6)) \<and>
                     reviews_file st' =
                       map (\<lambda>r. r\<lparr>ease := stored_ease (ease r)\<rparr>) (reviews_file st) @
                       [\<lparr>task_id = tid, interval_days = (if q < 3 then 1 else 6),
                          due = today + (if q < 3 then 1 else 6), ease = stored_ease e'\<rparr>])) \<and>
            (\<exists>i' e'. m = Next_review tid i' (today + i') \<and>
                     find (\<lambda>r. task_id r = tid) (reviews_file st') =
                       Some \<lparr>task_id = tid, interval_days = i', due = today + i', ease = e'\<rparr>)) \<and>
   (find (\<lambda>r. task_id r = tid) (reviews_file st) = None \<and>
    \<bar>5 - q\<bar> < 2 ^ 1024 - 2 ^ 970 \<and> 1 \<le> today \<and> today \<le> 3652053 \<longrightarrow>
      (\<exists>i' d st'. cmd_review today tid q st = Inr (Next_review tid i' d, st')))"
proof (intro conjI allI impI)
  fix m st' assume r: "cmd_review today tid q st = Inr (m, st')"
  { assume "find (\<lambda>r. task_id r = tid) (reviews_file st) = None"
    with cmd_review_defaults_result [OF r]
    show "\<exists>e'. update_ease (float_lit (5 / 2)) q = Inr e' \<and>
                  m = Next_review tid (if q < 3 then 1 else 6) (today + (if q < 3 then 1 else 6)) \<and>
                  reviews_file st' =
                    map (\<lambda>r. r\<lparr>ease := stored_ease (ease r)\<rparr>) (reviews_file st) @
                    [\<lparr>task_id = tid, interval_days = (if q < 3 then 1 else 6),
                       due = today + (if q < 3 then 1 else 6), ease = stored_ease e'\<rparr>]"
      by blast }
  from cmd_review_defaults_result [OF r]
  show "\<exists>i' e'. m = Next_review tid i' (today + i') \<and>
                  find (\<lambda>r. task_id r = tid) (reviews_file st') =
                    Some \<lparr>task_id = tid, interval_days = i', due = today + i', ease = e'\<rparr>"
    by blast
next
  assume a: "find (\<lambda>r. task_id r = tid) (reviews_file st) = None \<and>
    \<bar>5 - q\<bar> < 2 ^ 1024 - 2 ^ 970 \<and> 1 \<le> today \<and> today \<le> 3652053"
  show "\<exists>i' d st'. cmd_review today tid q st = Inr (Next_review tid i' d, st')"
    by (rule cmd_review_returns) (use a in auto)
qed

theorem review_starts_from_defaults_witness:
  "cmd_review 738000 99 5 sample_store =
     Inr (Next_review 99 6 738006,
          sample_store\<lparr>reviews_file :=
            [\<lparr>task_id = 1, interval_days = 1, due = 738000, ease = Fin (5 / 2)\<rparr>,
             \<lparr>task_id = 2, interval_days = 6, due = 737990,
               ease = Fin (5854679515581645 / 2251799813685248)\<rparr>,
             \<lparr>task_id = 99, interval_days = 6, due = 738006,
               ease = Fin (5854679515581645 / 2251799813685248)\<rparr>]\<rparr>) \<and>
   find (\<lambda>r. task_id r = 99) (reviews_file sample_store) = None \<and>
   (\<exists>e'. update_ease (float_lit (5 / 2)) 5 = Inr e' \<and>
         Next_review 99 6 738006 = Next_review 99 6 (738000 + 6))"
proof -
  have n: "find (\<lambda>r. task_id r = 99) (reviews_file sample_store) = None"
    by (simp add: sample_store_def)
  show ?thesis
    using review_starts_from_defaults [of 738000 99 5 sample_store] sample_review_99_5 n
    by auto
qed

section \<open>Reviews and the task store\<close>

lemma set_status_absent: "tid \<notin> t_id ` set ts \<Longrightarrow> set_status tid s ts = None"
  by (induction ts) auto

lemma set_status_present:
  "tid \<in> t_id ` set ts \<Longrightarrow>
   \<exists>t0 ts'. find (\<lambda>t. t_id t = tid) ts = Some t0 \<and>
            set_status tid s ts = Some (t0\<lparr>t_status := s\<rparr>, ts') \<and>
            find (\<lambda>t. t_id t = tid) ts' = Some (t0\<lparr>t_status := s\<rparr>) \<and>
            map t_id ts' = map t_id ts \<and>
            filter (\<lambda>t. t_id t \<noteq> tid) ts' = filter (\<lambda>t. t_id t \<noteq> tid) ts"
proof (induction ts)
  case Nil
  then show ?case by simp
next
  case (Cons a ts)
  show ?case
  proof (cases "t_id a = tid")
    case True
    then show ?thesis by simp
  next
    case False
    with Cons.prems have "tid \<in> t_id ` set ts" by auto
    from Cons.IH[OF this] obtain t0 ts' where
      "find (\<lambda>t. t_id t = tid) ts = Some t0"
      "set_status tid s ts = Some (t0\<lparr>t_status := s\<rparr>, ts')"
      "find (\<lambda>t. t_id t = tid) ts' = Some (t0\<lparr>t_status := s\<rparr>)"
      "map t_id ts' = map t_id ts"
      "filter (\<lambda>t. t_id t \<noteq> tid) ts' = filter (\<lambda>t. t_id t \<noteq> tid) ts"
      by blast
    then show ?thesis using False by simp
  qed
qed

lemma cmd_review_tasks_irrelevant:
  "cmd_review today tid q (st\<lparr>tasks_file := ts\<rparr>) =
     (case cmd_review today tid q st of
        Inl err \<Rightarrow> Inl err
      | Inr (m, st') \<Rightarrow> Inr (m, st'\<lparr>tasks_file := ts\<rparr>))"
  by (simp add: cmd_review_def load_reviews_def upsert_review_def save_reviews_def Let_def
           split: sum.splits option.splits)

text \<open>
  Claim C4 says that a review of a task id absent from the task store signals NotFound
  and changes no store. The review command never reads the task store: with no task 99,
  a review of 99 prints the next review and appends a record for 99.
\<close>

theorem review_of_absent_task_counterexample:
  "99 \<notin> t_id ` set (tasks_file sample_store) \<and>
   cmd_review 738000 99 5 sample_store =
     Inr (Next_review 99 6 738006,
          sample_store\<lparr>reviews_file :=
            [\<lparr>task_id = 1, interval_days = 1, due = 738000, ease = Fin (5 / 2)\<rparr>,
             \<lparr>task_id = 2, interval_days = 6, due = 737990,
               ease = Fin (5854679515581645 / 2251799813685248)\<rparr>,
             \<lparr>task_id = 99, interval_days = 6, due = 738006,
               ease = Fin (5854679515581645 / 2251799813685248)\<rparr>]\<rparr>) \<and>
   reviews_file sample_store =
     [\<lparr>task_id = 1, interval_days = 1, due = 738000, ease = Fin (5 / 2)\<rparr>,
      \<lparr>task_id = 2, interval_days = 6, due = 737990,
        ease = Fin (5854679515581645 / 2251799813685248)\<rparr>]"
  using sample_review_99_5 by (simp add: sample_store_def)

text \<open>
  Claim C4, amended. A review never consults the task store: its result is the same
  whatever the tasks are. When it returns it has printed the next review (never that the
  task was not found), it has left the tasks, subjects and sessions as they were, and the
  review store holds a record for the task id, also for an id that no task has. The
  status update is the command that reports an absent task id and changes nothing.
\<close>

theorem review_ignores_task_store:
  "(\<forall>m st'. cmd_review today tid q st = Inr (m, st') \<longrightarrow>
      m \<noteq> Task_not_found tid \<and> tasks_file st' = tasks_file st \<and>
      subjects_file st' = subjects_file st \<and> sessions_file st' = sessions_file st \<and>
      tid \<in> task_id ` set (reviews_file st')) \<and>
   cmd_review today tid q (st\<lparr>tasks_file := ts\<rparr>) =
     (case cmd_review today tid q st of
        Inl err \<Rightarrow> Inl err
      | Inr (m, st') \<Rightarrow> Inr (m, st'\<lparr>tasks_file := ts\<rparr>)) \<and>
   (tid \<notin> t_id ` set (tasks_file st) \<longrightarrow>
      cmd_update_status tid s st = (Task_not_found tid, st))"
proof (intro conjI allI impI)
  fix m st' assume r: "cmd_review today tid q st = Inr (m, st')"
  then obtain i' d e' where m: "m = Next_review tid i' d"
    and st': "st' = upsert_review tid i' d e' st"
    using cmd_review_InrD by blast
  show "m \<noteq> Task_not_found tid" by (simp add: m)
  show "tasks_file st' = tasks_file st" "subjects_file st' = subjects_file st"
    "sessions_file st' = sessions_file st" by (simp_all add: st')
  have "find (\<lambda>r. task_id r = tid) (reviews_file st') \<noteq> None"
    unfolding st' by (simp add: find_upsert_review)
  then show "tid \<in> task_id ` set (reviews_file st')"
    by (auto simp: find_None_iff)
next
  show "cmd_review today tid q (st\<lparr>tasks_file := ts\<rparr>) =
     (case cmd_review today tid q st of
        Inl err \<Rightarrow> Inl err
      | Inr (m, st') \<Rightarrow> Inr (m, st'\<lparr>tasks_file := ts\<rparr>))"
    by (rule cmd_review_tasks_irrelevant)
next
  assume "tid \<notin> t_id ` set (tasks_file st)"
  then show "cmd_update_status tid s st = (Task_not_found tid, st)"
    by (simp add: cmd_update_status_def tasks_list_def set_status_absent)
qed

theorem review_ignores_task_store_witness:
  "cmd_review 738000 99 5 sample_store =
     Inr (Next_review 99 6 738006,
          sample_store\<lparr>reviews_file :=
            [\<lparr>task_id = 1, interval_days = 1, due = 738000, ease = Fin (5 / 2)\<rparr>,
             \<lparr>task_id = 2, interval_days = 6, due = 737990,
               ease = Fin (5854679515581645 / 2251799813685248)\<rparr>,
             \<lparr>task_id = 99, interval_days = 6, due = 738006,
               ease = Fin (5854679515581645 / 2251799813685248)\<rparr>]\<rparr>) \<and>
   Next_review 99 6 738006 \<noteq> Task_not_found 99 \<and>
   99 \<notin> t_id ` set (tasks_file sample_store) \<and>
   cmd_update_status 99 STATUS_DONE sample_store = (Task_not_found 99, sample_store)"
proof -
  have a: "99 \<notin> t_id ` set (tasks_file sample_store)"
    by (simp add: sample_store_def)
  show ?thesis
    using review_ignores_task_store [of 738000 99 5 sample_store "[]" STATUS_DONE]
      sample_review_99_5 a
    by simp
qed

lemma cmd_update_status_reviews [simp]:
  "reviews_file (snd (cmd_update_status tid s st)) = reviews_file st"
  by (simp add: cmd_update_status_def save_tasks_def split: option.splits prod.splits)

lemma main_done_None_iff:
  "main_done today tid st = (None, ms, st') \<longleftrightarrow>
     (\<exists>m2. cmd_review today tid 4 (snd (cmd_update_status tid STATUS_DONE st)) = Inr (m2, st') \<and>
           ms = [fst (cmd_update_status tid STATUS_DONE st), m2])"
  by (cases "cmd_update_status tid STATUS_DONE st")
     (auto simp: main_done_def split: sum.splits prod.splits)

text \<open>What the \<^verbatim>\<open>done\<close> command that returns has printed and written.\<close>

lemma main_done_result:
  assumes "main_done today tid st = (None, ms, st')"
    and "i = (case find (\<lambda>r. task_id r = tid) (reviews_file st) of
                None \<Rightarrow> 1 | Some r \<Rightarrow> interval_days r)"
    and "e = (case find (\<lambda>r. task_id r = tid) (reviews_file st) of
                None \<Rightarrow> float_lit (5 / 2) | Some r \<Rightarrow> ease r)"
  shows "\<exists>m1 i' e'.
           ms = [m1, Next_review tid i' (today + i')] \<and>
           cmd_review today tid 4 (snd (cmd_update_status tid STATUS_DONE st)) =
             Inr (Next_review tid i' (today + i'), st') \<and>
           update_ease e 4 = Inr e' \<and>
           find (\<lambda>r. task_id r = tid) (reviews_file st') =
             Some \<lparr>task_id = tid, interval_days = i', due = today + i', ease = stored_ease e'\<rparr> \<and>
           (i = 0 \<or> i = 1 \<longrightarrow> i' = 6) \<and>
           (i \<noteq> 0 \<and> i \<noteq> 1 \<longrightarrow>
              (\<exists>fi n. float_of_int i = Inr fi \<and> py_round (fmul fi e') = Inr n \<and> i' = max 1 n)) \<and>
           (tid \<in> t_id ` set (tasks_file st) \<longrightarrow>
              (\<exists>t0. find (\<lambda>t. t_id t = tid) (tasks_file st) = Some t0 \<and>
                    find (\<lambda>t. t_id t = tid) (tasks_file st') = Some (t0\<lparr>t_status := STATUS_DONE\<rparr>) \<and>
                    m1 = Task_updated tid (t_subject t0) (t_title t0) STATUS_DONE \<and>
                    map t_id (tasks_file st') = map t_id (tasks_file st) \<and>
                    filter (\<lambda>t. t_id t \<noteq> tid) (tasks_file st') =
                      filter (\<lambda>t. t_id t \<noteq> tid) (tasks_file st))) \<and>
           (tid \<notin> t_id ` set (tasks_file st) \<longrightarrow>
              m1 = Task_not_found tid \<and> tasks_file st' = tasks_file st)"
proof -
  define m1 where "m1 = fst (cmd_update_status tid STATUS_DONE st)"
  define st1 where "st1 = snd (cmd_update_status tid STATUS_DONE st)"
  from assms(1) obtain m2 where r: "cmd_review today tid 4 st1 = Inr (m2, st')"
    and ms: "ms = [m1, m2]"
    unfolding main_done_None_iff m1_def st1_def by blast
  have rv: "reviews_file st1 = reviews_file st" by (simp add: st1_def)
  from cmd_review_result[OF r, unfolded rv, OF assms(2) assms(3)]
  obtain e' i' d where ue: "update_ease e 4 = Inr e'" and m2: "m2 = Next_review tid i' d"
    and f: "find (\<lambda>r. task_id r = tid) (reviews_file st') =
             Some \<lparr>task_id = tid, interval_days = i', due = d, ease = stored_ease e'\<rparr>"
    and r2: "i = 0 \<or> i = 1 \<longrightarrow> i' = 6"
    and r3: "i \<noteq> 0 \<and> i \<noteq> 1 \<longrightarrow>
              (\<exists>fi n. float_of_int i = Inr fi \<and> py_round (fmul fi e') = Inr n \<and> i' = max 1 n)"
    by auto
  from r m2 have "date_plus_days today i' = Inr d"
    unfolding cmd_review_Inr_iff by auto
  then have d: "d = today + i'" using date_plus_days_InrD by blast
  from r obtain i2 d2 e2 where st': "st' = upsert_review tid i2 d2 e2 st1"
    using cmd_review_InrD by blast
  have tf: "tasks_file st' = tasks_file st1" by (simp add: st')
  have present: "tid \<in> t_id ` set (tasks_file st) \<longrightarrow>
              (\<exists>t0. find (\<lambda>t. t_id t = tid) (tasks_file st) = Some t0 \<and>
                    find (\<lambda>t. t_id t = tid) (tasks_file st') = Some (t0\<lparr>t_status := STATUS_DONE\<rparr>) \<and>
                    m1 = Task_updated tid (t_subject t0) (t_title t0) STATUS_DONE \<and>
                    map t_id (tasks_file st') = map t_id (tasks_file st) \<and>
                    filter (\<lambda>t. t_id t \<noteq> tid) (tasks_file st') =
                      filter (\<lambda>t. t_id t \<noteq> tid) (tasks_file st))"
  proof
    assume "tid \<in> t_id ` set (tasks_file st)"
    from set_status_present[OF this, of STATUS_DONE] obtain t0 ts' where
      a: "find (\<lambda>t. t_id t = tid) (tasks_file st) = Some t0"
      and b: "set_status tid STATUS_DONE (tasks_file st) = Some (t0\<lparr>t_status := STATUS_DONE\<rparr>, ts')"
      and c: "find (\<lambda>t. t_id t = tid) ts' = Some (t0\<lparr>t_status := STATUS_DONE\<rparr>)"
      and d': "map t_id ts' = map t_id (tasks_file st)"
      and e': "filter (\<lambda>t. t_id t \<noteq> tid) ts' = filter (\<lambda>t. t_id t \<noteq> tid) (tasks_file st)"
      by blast
    have "tasks_file st1 = ts'" and "m1 = Task_updated tid (t_subject t0) (t_title t0) STATUS_DONE"
      using b by (simp_all add: st1_def m1_def cmd_update_status_def tasks_list_def save_tasks_def)
    then show "\<exists>t0. find (\<lambda>t. t_id t = tid) (tasks_file st) = Some t0 \<and>
                    find (\<lambda>t. t_id t = tid) (tasks_file st') = Some (t0\<lparr>t_status := STATUS_DONE\<rparr>) \<and>
                    m1 = Task_updated tid (t_subject t0) (t_title t0) STATUS_DONE \<and>
                    map t_id (tasks_file st') = map t_id (tasks_file st) \<and>
                    filter (\<lambda>t. t_id t \<noteq> tid) (tasks_file st') =
                      filter (\<lambda>t. t_id t \<noteq> tid) (tasks_file st)"
      using a c d' e' tf by auto
  qed
  have absent: "tid \<notin> t_id ` set (tasks_file st) \<longrightarrow>
              m1 = Task_not_found tid \<and> tasks_file st' = tasks_file st"
    using tf by (auto simp: st1_def m1_def cmd_update_status_def tasks_list_def set_status_absent)
  have r': "cmd_review today tid 4 (snd (cmd_update_status tid STATUS_DONE st)) =
             Inr (Next_review tid i' (today + i'), st')"
    using r m2 d by (simp add: st1_def)
  show ?thesis
    using ms m2 d r' ue f r2 r3 present absent by blast
qed

lemma sample_done_1:
  "main_done 738000 1 sample_store =
     (None, [Task_updated 1 ''Math'' ''Algebra'' ''done'', Next_review 1 6 738006],
      sample_store\<lparr>
        tasks_file :=
          [\<lparr>t_id = 1, t_subject = ''Math'', t_title = ''Algebra'', t_status = ''done''\<rparr>,
           \<lparr>t_id = 2, t_subject = ''Math'', t_title = ''Calculus'', t_status = ''done''\<rparr>],
        reviews_file :=
          [\<lparr>task_id = 1, interval_days = 6, due = 738006, ease = Fin (5 / 2)\<rparr>,
           \<lparr>task_id = 2, interval_days = 6, due = 737990,
             ease = Fin (5854679515581645 / 2251799813685248)\<rparr>]\<rparr>)"
  by (simp add: main_done_def cmd_update_status_def tasks_list_def save_tasks_def STATUS_DONE_def
        sample_store_def review_eval)

lemma main_done_returns:
  assumes "(case find (\<lambda>r. task_id r = tid) (reviews_file st) of
              None \<Rightarrow> 1 | Some r \<Rightarrow> interval_days r) \<in> {0, 1}"
    and "1 \<le> today" and "today \<le> 3652053"
  shows "\<exists>ms st'. main_done today tid st = (None, ms, st')"
proof -
  define st1 where "st1 = snd (cmd_update_status tid STATUS_DONE st)"
  have rv: "reviews_file st1 = reviews_file st" by (simp add: st1_def)
  have "\<exists>i' d st'. cmd_review today tid 4 st1 = Inr (Next_review tid i' d, st')"
    by (rule cmd_review_returns) (use assms in \<open>simp_all add: rv\<close>)
  then show ?thesis unfolding main_done_None_iff st1_def by blast
qed

text \<open>
  Claim C10. The \<^verbatim>\<open>done\<close> command that returns has set the status of the first task
  of that id to done (or reported that there is none) and then has recorded a review of
  quality 4 for the id: the review store holds the record with the updated ease, the new
  interval (6 after a prior interval of 0 or 1, else the greater of 1 and
  \<^verbatim>\<open>round(i * e')\<close>) and the due date today plus that interval.
  The command returns whenever the prior interval is 0 or 1 and today plus 6 is a date.
\<close>

theorem done_records_review:
  assumes "i = (case find (\<lambda>r. task_id r = tid) (reviews_file st) of
                None \<Rightarrow> 1 | Some r \<Rightarrow> interval_days r)"
    and "e = (case find (\<lambda>r. task_id r = tid) (reviews_file st) of
                None \<Rightarrow> float_lit (5 / 2) | Some r \<Rightarrow> ease r)"
  shows "(\<forall>ms st'. main_done today tid st = (None, ms, st') \<longrightarrow>
           (\<exists>m1 i' e'.
              ms = [m1, Next_review tid i' (today + i')] \<and>
              cmd_review today tid 4 (snd (cmd_update_status tid STATUS_DONE st)) =
                Inr (Next_review tid i' (today + i'), st') \<and>
              update_ease e 4 = Inr e' \<and>
              find (\<lambda>r. task_id r = tid) (reviews_file st') =
                Some \<lparr>task_id = tid, interval_days = i', due = today + i', ease = stored_ease e'\<rparr> \<and>
              (i = 0 \<or> i = 1 \<longrightarrow> i' = 6) \<and>
              (i \<noteq> 0 \<and> i \<noteq> 1 \<longrightarrow>
                 (\<exists>fi n. float_of_int i = Inr fi \<and> py_round (fmul fi e') = Inr n \<and> i' = max 1 n)) \<and>
              (tid \<in> t_id ` set (tasks_file st) \<longrightarrow>
                 (\<exists>t0. find (\<lambda>t. t_id t = tid) (tasks_file st) = Some t0 \<and>
                       find (\<lambda>t. t_id t = tid) (tasks_file st') = Some (t0\<lparr>t_status := STATUS_DONE\<rparr>) \<and>
                       m1 = Task_updated tid (t_subject t0) (t_title t0) STATUS_DONE \<and>
                       map t_id (tasks_file st') = map t_id (tasks_file st) \<and>
                       filter (\<lambda>t. t_id t \<noteq> tid) (tasks_file st') =
                         filter (\<lambda>t. t_id t \<noteq> tid) (tasks_file st))) \<and>
              (tid \<notin> t_id ` set (tasks_file st) \<longrightarrow>
                 m1 = Task_not_found tid \<and> tasks_file st' = tasks_file st))) \<and>
         ((i = 0 \<or> i = 1) \<and> 1 \<le> today \<and> today \<le> 3652053 \<longrightarrow>
            (\<exists>ms st'. main_done today tid st = (None, ms, st')))"
proof (intro conjI allI impI)
  fix ms st' assume "main_done today tid st = (None, ms, st')"
  from main_done_result [OF this assms]
  show "\<exists>m1 i' e'.
           ms = [m1, Next_review tid i' (today + i')] \<and>
           cmd_review today tid 4 (snd (cmd_update_status tid STATUS_DONE st)) =
             Inr (Next_review tid i' (today + i'), st') \<and>
           update_ease e 4 = Inr e' \<and>
           find (\<lambda>r. task_id r = tid) (reviews_file st') =
             Some \<lparr>task_id = tid, interval_days = i', due = today + i', ease = stored_ease e'\<rparr> \<and>
           (i = 0 \<or> i = 1 \<longrightarrow> i' = 6) \<and>
           (i \<noteq> 0 \<and> i \<noteq> 1 \<longrightarrow>
              (\<exists>fi n. float_of_int i = Inr fi \<and> py_round (fmul fi e') = Inr n \<and> i' = max 1 n)) \<and>
           (tid \<in> t_id ` set (tasks_file st) \<longrightarrow>
              (\<exists>t0. find (\<lambda>t. t_id t = tid) (tasks_file st) = Some t0 \<and>
                    find (\<lambda>t. t_id t = tid) (tasks_file st') = Some (t0\<lparr>t_status := STATUS_DONE\<rparr>) \<and>
                    m1 = Task_updated tid (t_subject t0) (t_title t0) STATUS_DONE \<and>
                    map t_id (tasks_file st') = map t_id (tasks_file st) \<and>
                    filter (\<lambda>t. t_id t \<noteq> tid) (tasks_file st') =
                      filter (\<lambda>t. t_id t \<noteq> tid) (tasks_file st))) \<and>
           (tid \<notin> t_id ` set (tasks_file st) \<longrightarrow>
              m1 = Task_not_found tid \<and> tasks_file st' = tasks_file st)" .
next
  assume a: "(i = 0 \<or> i = 1) \<and> 1 \<le> today \<and> today \<le> 3652053"
  show "\<exists>ms st'. main_done today tid st = (None, ms, st')"
    by (rule main_done_returns) (use a assms(1) in auto)
qed

theorem done_records_review_witness:
  "main_done 738000 1 sample_store =
     (None, [Task_updated 1 ''Math'' ''Algebra'' ''done'', Next_review 1 6 738006],
      sample_store\<lparr>
        tasks_file :=
          [\<lparr>t_id = 1, t_subject = ''Math'', t_title = ''Algebra'', t_status = ''done''\<rparr>,
           \<lparr>t_id = 2, t_subject = ''Math'', t_title = ''Calculus'', t_status = ''done''\<rparr>],
        reviews_file :=
          [\<lparr>task_id = 1, interval_days = 6, due = 738006, ease = Fin (5 / 2)\<rparr>,
           \<lparr>task_id = 2, interval_days = 6, due = 737990,
             ease = Fin (5854679515581645 / 2251799813685248)\<rparr>]\<rparr>) \<and>
   (\<exists>m1 i' e'.
      [Task_updated 1 ''Math'' ''Algebra'' ''done'', Next_review 1 6 738006] =
        [m1, Next_review 1 i' (738000 + i')] \<and>
      update_ease (Fin (5 / 2)) 4 = Inr e' \<and> i' = 6 \<and>
      m1 = Task_updated 1 ''Math'' ''Algebra'' STATUS_DONE)"
proof -
  have i: "(case find (\<lambda>r. task_id r = 1) (reviews_file sample_store) of
              None \<Rightarrow> 1 | Some r \<Rightarrow> interval_days r) = 1"
    and e: "(case find (\<lambda>r. task_id r = 1) (reviews_file sample_store) of
              None \<Rightarrow> float_lit (5 / 2) | Some r \<Rightarrow> ease r) = Fin (5 / 2)"
    and t: "1 \<in> t_id ` set (tasks_file sample_store)"
    and f: "find (\<lambda>t. t_id t = 1) (tasks_file sample_store) =
              Some \<lparr>t_id = 1, t_subject = ''Math'', t_title = ''Algebra'', t_status = ''todo''\<rparr>"
    by (simp_all add: sample_store_def)
  from done_records_review [OF i [symmetric] e [symmetric], of 738000, THEN conjunct1,
      rule_format, OF sample_done_1] t f
  show ?thesis using sample_done_1 by auto
qed

section \<open>The due query and the overdue flag\<close>

lemma due_min_by_due: "due (min_by_due m rs) = Min (insert (due m) (due ` set rs))"
proof (induction rs arbitrary: m)
  case Nil
  then show ?case by simp
next
  case (Cons r rs)
  have fin: "finite (due ` set rs)" by simp
  have "Min (insert (due (if due r < due m then r else m)) (due ` set rs)) =
        Min (insert (due m) (insert (due r) (due ` set rs)))"
  proof (cases "due ` set rs = {}")
    case True
    then show ?thesis by (auto simp: min_def)
  next
    case False
    then show ?thesis using fin by (auto simp: Min_insert min_def)
  qed
  then show ?case using Cons.IH by simp
qed

lemma sample_due:
  "cmd_review_due 738000 None sample_store =
     Review_table
       [\<lparr>rr_review = \<lparr>task_id = 2, interval_days = 6, due = 737990,
                       ease = Fin (5854679515581645 / 2251799813685248)\<rparr>,
          rr_subject = ''Math'', rr_title = ''Calculus'', rr_flag = OVERDUE\<rparr>,
        \<lparr>rr_review = \<lparr>task_id = 1, interval_days = 1, due = 738000, ease = Fin (5 / 2)\<rparr>,
          rr_subject = ''Math'', rr_title = ''Algebra'', rr_flag = DUE\<rparr>]"
  by (simp add: cmd_review_due_def load_reviews_def tasks_list_def dict_of_def sample_store_def)

text \<open>
  Claim C3. With \<open>asOf\<close> the date given, or today when none is given: on an empty
  review store the due query prints that no reviews are scheduled; on a store that is not
  empty with no record due by \<open>asOf\<close> it prints the least due date of all records as the
  next due date; otherwise it prints a table whose records are exactly those with
  \<open>due \<le> asOf\<close>, each as often as the store holds it, in ascending order of
  \<open>(due, task_id)\<close>.
\<close>

theorem due_query_result:
  assumes "asOf = (case on_opt of None \<Rightarrow> today | Some d \<Rightarrow> d)"
  shows "(reviews_file st = [] \<longrightarrow> cmd_review_due today on_opt st = No_reviews_scheduled) \<and>
         (reviews_file st \<noteq> [] \<and> (\<forall>r \<in> set (reviews_file st). asOf < due r) \<longrightarrow>
            cmd_review_due today on_opt st = No_reviews_due (Min (due ` set (reviews_file st)))) \<and>
         ((\<exists>r \<in> set (reviews_file st). due r \<le> asOf) \<longrightarrow>
            (\<exists>rows. cmd_review_due today on_opt st = Review_table rows \<and>
               mset (map rr_review rows) = filter_mset (\<lambda>r. due r \<le> asOf) (mset (reviews_file st)) \<and>
               sorted (map (\<lambda>row. (due (rr_review row), task_id (rr_review row))) rows)))"
proof (intro conjI impI)
  assume "reviews_file st = []"
  then show "cmd_review_due today on_opt st = No_reviews_scheduled"
    by (simp add: cmd_review_due_def load_reviews_def)
next
  assume a: "reviews_file st \<noteq> [] \<and> (\<forall>r \<in> set (reviews_file st). asOf < due r)"
  then obtain r rs where rs: "reviews_file st = r # rs" by (cases "reviews_file st") auto
  have "filter (\<lambda>r. due r \<le> asOf) (reviews_file st) = []"
    using a by (auto simp: filter_empty_conv)
  then show "cmd_review_due today on_opt st = No_reviews_due (Min (due ` set (reviews_file st)))"
    using rs by (simp add: cmd_review_due_def load_reviews_def assms[symmetric] due_min_by_due)
next
  assume "\<exists>r \<in> set (reviews_file st). due r \<le> asOf"
  then have ne: "filter (\<lambda>r. due r \<le> asOf) (reviews_file st) \<noteq> []"
    by (auto simp: filter_empty_conv)
  define items where "items = filter (\<lambda>r. due r \<le> asOf) (reviews_file st)"
  define tasks where "tasks = dict_of (map (\<lambda>t. (t_id t, t)) (tasks_list st))"
  define rows where "rows =
    map (\<lambda>r. \<lparr>rr_review = r,
               rr_subject = (case tasks (task_id r) of None \<Rightarrow> ''?'' | Some t \<Rightarrow> t_subject t),
               rr_title = (case tasks (task_id r) of None \<Rightarrow> ''<missing>'' | Some t \<Rightarrow> t_title t),
               rr_flag = (if due r < today then OVERDUE else DUE)\<rparr>)
        (sort_key (\<lambda>r. (due r, task_id r)) items)"
  have out: "cmd_review_due today on_opt st = Review_table rows"
    using ne by (simp add: cmd_review_due_def load_reviews_def assms[symmetric] rows_def
        items_def tasks_def Let_def)
  have rr: "map rr_review rows = sort_key (\<lambda>r. (due r, task_id r)) items"
    by (simp add: rows_def comp_def)
  have ms: "mset (map rr_review rows) = filter_mset (\<lambda>r. due r \<le> asOf) (mset (reviews_file st))"
    by (simp add: rr items_def)
  have "map (\<lambda>row. (due (rr_review row), task_id (rr_review row))) rows =
        map (\<lambda>r. (due r, task_id r)) (map rr_review rows)"
    by (simp add: comp_def)
  then have so: "sorted (map (\<lambda>row. (due (rr_review row), task_id (rr_review row))) rows)"
    by (simp only: rr sorted_sort_key)
  show "\<exists>rows. cmd_review_due today on_opt st = Review_table rows \<and>
               mset (map rr_review rows) = filter_mset (\<lambda>r. due r \<le> asOf) (mset (reviews_file st)) \<and>
               sorted (map (\<lambda>row. (due (rr_review row), task_id (rr_review row))) rows)"
    using out ms so by blast
qed

theorem due_query_result_witness:
  "map due (reviews_file sample_store) = [738000, 737990] \<and>
   cmd_review_due 738000 None sample_store =
     Review_table
       [\<lparr>rr_review = \<lparr>task_id = 2, interval_days = 6, due = 737990,
                       ease = Fin (5854679515581645 / 2251799813685248)\<rparr>,
          rr_subject = ''Math'', rr_title = ''Calculus'', rr_flag = OVERDUE\<rparr>,
        \<lparr>rr_review = \<lparr>task_id = 1, interval_days = 1, due = 738000, ease = Fin (5 / 2)\<rparr>,
          rr_subject = ''Math'', rr_title = ''Algebra'', rr_flag = DUE\<rparr>] \<and>
   cmd_review_due 738000 (Some 737000) sample_store = No_reviews_due 737990 \<and>
   cmd_review_due 738000 None (sample_store\<lparr>reviews_file := []\<rparr>) = No_reviews_scheduled"
proof -
  have a: "map due (reviews_file sample_store) = [738000, 737990]"
    and b: "reviews_file sample_store \<noteq> []"
    and c: "\<forall>r \<in> set (reviews_file sample_store). 737000 < due r"
    and m: "Min (due ` set (reviews_file sample_store)) = 737990"
    by (simp_all add: sample_store_def)
  have "cmd_review_due 738000 (Some 737000) sample_store = No_reviews_due 737990"
    using due_query_result [where asOf = 737000 and on_opt = "Some 737000" and today = 738000
        and st = sample_store] b c m by simp
  moreover have "cmd_review_due 738000 None (sample_store\<lparr>reviews_file := []\<rparr>) =
      No_reviews_scheduled"
    using due_query_result [where asOf = 738000 and on_opt = None and today = 738000
        and st = "sample_store\<lparr>reviews_file := []\<rparr>"] by simp
  ultimately show ?thesis using a sample_due by simp
qed

lemma sample_list:
  "cmd_list_tasks 738000 None None sample_store =
     Task_table
       [\<lparr>tr_task = \<lparr>t_id = 1, t_subject = ''Math'', t_title = ''Algebra'', t_status = ''todo''\<rparr>,
          tr_due = Some 738000, tr_flag = NOFLAG\<rparr>,
        \<lparr>tr_task = \<lparr>t_id = 2, t_subject = ''Math'', t_title = ''Calculus'', t_status = ''done''\<rparr>,
          tr_due = Some 737990, tr_flag = NOFLAG\<rparr>]"
  by (simp add: cmd_list_tasks_def load_reviews_def tasks_list_def dict_of_def sample_store_def
        STATUS_DONE_def)

text \<open>
  Claim C5 says that in every query output a review is flagged OVERDUE exactly when its
  due date is before today and its task is not done. The due query does not look at the
  status: task 2 of the sample is done, and its review, due ten days ago, is flagged.
\<close>

theorem overdue_flag_of_done_task_counterexample:
  "cmd_review_due 738000 None sample_store =
     Review_table
       [\<lparr>rr_review = \<lparr>task_id = 2, interval_days = 6, due = 737990,
                       ease = Fin (5854679515581645 / 2251799813685248)\<rparr>,
          rr_subject = ''Math'', rr_title = ''Calculus'', rr_flag = OVERDUE\<rparr>,
        \<lparr>rr_review = \<lparr>task_id = 1, interval_days = 1, due = 738000, ease = Fin (5 / 2)\<rparr>,
          rr_subject = ''Math'', rr_title = ''Algebra'', rr_flag = DUE\<rparr>] \<and>
   filter (\<lambda>t. t_id t = 2) (tasks_file sample_store) =
     [\<lparr>t_id = 2, t_subject = ''Math'', t_title = ''Calculus'', t_status = STATUS_DONE\<rparr>]"
  using sample_due by (simp add: sample_store_def STATUS_DONE_def)

lemma overdue_flag_iff: "overdue_flag today x = OVERDUE \<longleftrightarrow> (\<exists>d. x = Some d \<and> d < today)"
  by (cases x) auto

text \<open>
  Claim C5, amended. In the task list a task is flagged OVERDUE exactly when its status is
  not done and the due date of its (last) review record is before today. In the due query
  a listed review is flagged OVERDUE exactly when its due date is before today, whatever
  the status of its task, and DUE otherwise. Both queries return their rows only: a flag
  is part of a row, not of a task or of a review record, and no store is written.
\<close>

theorem overdue_flags_by_query:
  "(cmd_list_tasks today subject status st = Task_table trows \<longrightarrow>
      (\<forall>row \<in> set trows.
         tr_task row \<in> set (tasks_file st) \<and>
         (tr_flag row = OVERDUE \<longleftrightarrow>
            t_status (tr_task row) \<noteq> STATUS_DONE \<and>
            (\<exists>d. dict_of (map (\<lambda>r. (task_id r, due r)) (reviews_file st)) (t_id (tr_task row)) = Some d \<and>
                 d < today)))) \<and>
   (cmd_review_due today on_opt st = Review_table rrows \<longrightarrow>
      (\<forall>row \<in> set rrows.
         rr_review row \<in> set (reviews_file st) \<and>
         (rr_flag row = OVERDUE \<longleftrightarrow> due (rr_review row) < today) \<and>
         (rr_flag row = DUE \<longleftrightarrow> \<not> due (rr_review row) < today)))"
proof (intro conjI impI ballI)
  fix row
  assume t: "cmd_list_tasks today subject status st = Task_table trows" and r: "row \<in> set trows"
  define due_map where "due_map = dict_of (map (\<lambda>r. (task_id r, due r)) (reviews_file st))"
  define tasks1 where "tasks1 = (case subject of
                      None \<Rightarrow> tasks_file st
                    | Some s \<Rightarrow> if s = [] then tasks_file st
                               else filter (\<lambda>t. lower (t_subject t) = lower s) (tasks_file st))"
  define ts where "ts = (case status of
                      None \<Rightarrow> tasks1
                    | Some s \<Rightarrow> if s = [] then tasks1
                               else filter (\<lambda>t. lower (t_status t) = lower s) tasks1)"
  have "set tasks1 \<subseteq> set (tasks_file st)"
    by (auto simp: tasks1_def split: option.splits)
  moreover have "set ts \<subseteq> set tasks1"
    by (auto simp: ts_def split: option.splits)
  ultimately have ts: "set ts \<subseteq> set (tasks_file st)" by blast
  have "cmd_list_tasks today subject status st =
          (if ts = [] then No_matching_tasks
           else Task_table (map (\<lambda>t. \<lparr>tr_task = t, tr_due = due_map (t_id t),
                             tr_flag = overdue_flag today
                               (if t_status t \<noteq> STATUS_DONE then due_map (t_id t) else None)\<rparr>) ts))"
    unfolding ts_def tasks1_def due_map_def
    by (simp add: cmd_list_tasks_def Let_def load_reviews_def tasks_list_def)
  with t have rows: "trows = map (\<lambda>t. \<lparr>tr_task = t, tr_due = due_map (t_id t),
                             tr_flag = overdue_flag today
                               (if t_status t \<noteq> STATUS_DONE then due_map (t_id t) else None)\<rparr>) ts"
    by (auto split: if_splits)
  from r rows obtain t where tt: "t \<in> set ts"
    and row: "row = \<lparr>tr_task = t, tr_due = due_map (t_id t),
                             tr_flag = overdue_flag today
                               (if t_status t \<noteq> STATUS_DONE then due_map (t_id t) else None)\<rparr>"
    by auto
  show "tr_task row \<in> set (tasks_file st)" using tt ts by (auto simp: row)
  show "tr_flag row = OVERDUE \<longleftrightarrow>
            t_status (tr_task row) \<noteq> STATUS_DONE \<and>
            (\<exists>d. dict_of (map (\<lambda>r. (task_id r, due r)) (reviews_file st)) (t_id (tr_task row)) = Some d \<and>
                 d < today)"
    unfolding due_map_def[symmetric] by (simp add: row overdue_flag_iff)
next
  fix row
  assume t: "cmd_review_due today on_opt st = Review_table rrows" and r: "row \<in> set rrows"
  from t obtain f g on where
    rows: "rrows = map (\<lambda>r. \<lparr>rr_review = r, rr_subject = f r, rr_title = g r,
                             rr_flag = (if due r < today then OVERDUE else DUE)\<rparr>)
                   (sort_key (\<lambda>r. (due r, task_id r)) (filter (\<lambda>r. due r \<le> on) (reviews_file st)))"
    unfolding cmd_review_due_def Let_def load_reviews_def
    by (auto split: if_splits list.splits)
  from r rows obtain rv where rv: "rv \<in> set (reviews_file st)"
    and row: "row = \<lparr>rr_review = rv, rr_subject = f rv, rr_title = g rv,
                             rr_flag = (if due rv < today then OVERDUE else DUE)\<rparr>"
    by auto
  show "rr_review row \<in> set (reviews_file st)" using rv by (simp add: row)
  show "rr_flag row = OVERDUE \<longleftrightarrow> due (rr_review row) < today" by (simp add: row)
  show "rr_flag row = DUE \<longleftrightarrow> \<not> due (rr_review row) < today" by (simp add: row)
qed


lemma sample_list_next_day:
  "cmd_list_tasks 738001 None None sample_store =
     Task_table
       [\<lparr>tr_task = \<lparr>t_id = 1, t_subject = ''Math'', t_title = ''Algebra'', t_status = ''todo''\<rparr>,
          tr_due = Some 738000, tr_flag = OVERDUE\<rparr>,
        \<lparr>tr_task = \<lparr>t_id = 2, t_subject = ''Math'', t_title = ''Calculus'', t_status = ''done''\<rparr>,
          tr_due = Some 737990, tr_flag = NOFLAG\<rparr>]"
  by (simp add: cmd_list_tasks_def load_reviews_def tasks_list_def dict_of_def sample_store_def
        STATUS_DONE_def)


theorem overdue_flags_by_query_witness:
  "cmd_list_tasks 738001 None None sample_store =
     Task_table
       [\<lparr>tr_task = \<lparr>t_id = 1, t_subject = ''Math'', t_title = ''Algebra'', t_status = ''todo''\<rparr>,
          tr_due = Some 738000, tr_flag = OVERDUE\<rparr>,
        \<lparr>tr_task = \<lparr>t_id = 2, t_subject = ''Math'', t_title = ''Calculus'', t_status = ''done''\<rparr>,
          tr_due = Some 737990, tr_flag = NOFLAG\<rparr>] \<and>
   cmd_review_due 738000 None sample_store =
     Review_table
       [\<lparr>rr_review = \<lparr>task_id = 2, interval_days = 6, due = 737990,
                       ease = Fin (5854679515581645 / 2251799813685248)\<rparr>,
          rr_subject = ''Math'', rr_title = ''Calculus'', rr_flag = OVERDUE\<rparr>,
        \<lparr>rr_review = \<lparr>task_id = 1, interval_days = 1, due = 738000, ease = Fin (5 / 2)\<rparr>,
          rr_subject = ''Math'', rr_title = ''Algebra'', rr_flag = DUE\<rparr>] \<and>
   dict_of (map (\<lambda>r. (task_id r, due r)) (reviews_file sample_store)) 1 = Some 738000 \<and>
   \<lparr>t_id = 1, t_subject = ''Math'', t_title = ''Algebra'', t_status = ''todo''\<rparr>
     \<in> set (tasks_file sample_store) \<and>
   \<lparr>task_id = 2, interval_days = 6, due = 737990,
      ease = Fin (5854679515581645 / 2251799813685248)\<rparr> \<in> set (reviews_file sample_store)"
proof -
  have m: "dict_of (map (\<lambda>r. (task_id r, due r)) (reviews_file sample_store)) 1 = Some 738000"
    "\<lparr>t_id = 1, t_subject = ''Math'', t_title = ''Algebra'', t_status = ''todo''\<rparr>
       \<in> set (tasks_file sample_store)"
    "\<lparr>task_id = 2, interval_days = 6, due = 737990,
       ease = Fin (5854679515581645 / 2251799813685248)\<rparr> \<in> set (reviews_file sample_store)"
    by (simp_all add: sample_store_def dict_of_def)
  show ?thesis
    using overdue_flags_by_query [where today = 738001 and subject = None and status = None
      and st = sample_store and trows =
       "[\<lparr>tr_task = \<lparr>t_id = 1, t_subject = ''Math'', t_title = ''Algebra'', t_status = ''todo''\<rparr>,
          tr_due = Some 738000, tr_flag = OVERDUE\<rparr>,
        \<lparr>tr_task = \<lparr>t_id = 2, t_subject = ''Math'', t_title = ''Calculus'', t_status = ''done''\<rparr>,
          tr_due = Some 737990, tr_flag = NOFLAG\<rparr>]"]
    overdue_flags_by_query [where today = 738000 and on_opt = None and st = sample_store
      and rrows =
       "[\<lparr>rr_review = \<lparr>task_id = 2, interval_days = 6, due = 737990,
                       ease = Fin (5854679515581645 / 2251799813685248)\<rparr>,
          rr_subject = ''Math'', rr_title = ''Calculus'', rr_flag = OVERDUE\<rparr>,
        \<lparr>rr_review = \<lparr>task_id = 1, interval_days = 1, due = 738000, ease = Fin (5 / 2)\<rparr>,
          rr_subject = ''Math'', rr_title = ''Algebra'', rr_flag = DUE\<rparr>]"]
      sample_list_next_day sample_due m
    by (simp add: STATUS_DONE_def)
qed

section \<open>The formula of the ease update\<close>

lemma float_lit_neg_14_100:
  "float_lit (- 14 / 100) = Fin (- (5044031582654955 / 36028797018963968) - 1 / 2 ^ 55)"
  by (simp add: float_eval0)

lemma float_lit_neg_8_10:
  "float_lit (- 8 / 10) = Fin (- (7205759403792793 / 9007199254740992) - 1 / 2 ^ 53)"
  by (simp add: float_eval0)

text \<open>
  Claim C2 says that quality 3 adds \<^verbatim>\<open>-0.14\<close> and quality 0 adds \<^verbatim>\<open>-0.8\<close> to the
  ease. The deltas that the code computes are the doubles next to these: from the ease
  \<^verbatim>\<open>2.0\<close> and quality 3 the code returns \<^verbatim>\<open>1.86\<close>, and
  \<^verbatim>\<open>max(1.3, 2.0 + -0.14)\<close> is \<^verbatim>\<open>1.8599999999999999\<close>; from \<^verbatim>\<open>2.5\<close> and quality
  0 it returns \<^verbatim>\<open>1.7000000000000002\<close>, and \<^verbatim>\<open>max(1.3, 2.5 + -0.8)\<close> is \<^verbatim>\<open>1.7\<close>.
\<close>

theorem ease_delta_counterexample:
  "update_ease (Fin 2) 3 \<noteq>
     Inr (py_max (float_lit (13 / 10)) (fadd (Fin 2) (float_lit (- 14 / 100)))) \<and>
   update_ease (float_lit (5 / 2)) 0 \<noteq>
     Inr (py_max (float_lit (13 / 10)) (fadd (float_lit (5 / 2)) (float_lit (- 8 / 10))))"
  by (simp add: update_ease_def float_eval)

lemma update_ease_returns_iff:
  "(\<exists>e'. update_ease e q = Inr e') \<longleftrightarrow> \<bar>5 - q\<bar> < 2 ^ 1024 - 2 ^ 970"
proof -
  have "(\<exists>e'. update_ease e q = Inr e') \<longleftrightarrow> float_of_int (5 - q) \<noteq> Inl OverflowError"
    using float_of_int_cases[of "5 - q"] by (auto simp: update_ease_def Let_def)
  then show ?thesis by (simp add: float_of_int_overflow_iff not_le)
qed

lemma update_ease_overflow:
  "2 ^ 1024 - 2 ^ 970 \<le> \<bar>5 - q\<bar> \<Longrightarrow> update_ease e q = Inl OverflowError"
  using float_of_int_overflow_iff[of "5 - q"] by (simp add: update_ease_def)

text \<open>
  Claim C2, amended. When \<open>5 - q\<close> converts to a float, which it does exactly when
  its magnitude is below \<open>2 ^ 1024 - 2 ^ 970\<close>, the updated ease is
  \<^verbatim>\<open>max(1.3, e + delta)\<close> with \<^verbatim>\<open>delta = 0.1 - (5 - q) * (0.08 + (5 - q) * 0.02)\<close>,
  every operation rounded to binary64 in the order of the code; a larger magnitude raises
  OverflowError. Quality 5 adds the double \<^verbatim>\<open>0.1\<close>; quality 3 adds the double next above
  \<^verbatim>\<open>-0.14\<close>, less than \<open>2 ^ -55\<close> from it; quality 0 adds the double next above
  \<^verbatim>\<open>-0.8\<close>, less than \<open>2 ^ -53\<close> from it.
\<close>

theorem update_ease_formula:
  "(float_of_int (5 - q) = Inr k \<longrightarrow>
      update_ease e q =
        Inr (py_max (float_lit (13 / 10))
               (fadd e (fsub (float_lit (1 / 10))
                          (fmul k (fadd (float_lit (8 / 100)) (fmul k (float_lit (2 / 100))))))))) \<and>
   ((\<exists>e'. update_ease e q = Inr e') \<longleftrightarrow> \<bar>5 - q\<bar> < 2 ^ 1024 - 2 ^ 970) \<and>
   (2 ^ 1024 - 2 ^ 970 \<le> \<bar>5 - q\<bar> \<longrightarrow> update_ease e q = Inl OverflowError) \<and>
   update_ease e 5 = Inr (py_max (float_lit (13 / 10)) (fadd e (float_lit (1 / 10)))) \<and>
   update_ease e 3 =
     Inr (py_max (float_lit (13 / 10)) (fadd e (Fin (- (5044031582654955 / 36028797018963968))))) \<and>
   float_lit (- 14 / 100) = Fin (- (5044031582654955 / 36028797018963968) - 1 / 2 ^ 55) \<and>
   \<bar>- (5044031582654955 / 36028797018963968) - (- 14 / 100 :: rat)\<bar> < 1 / 2 ^ 55 \<and>
   update_ease e 0 =
     Inr (py_max (float_lit (13 / 10)) (fadd e (Fin (- (7205759403792793 / 9007199254740992))))) \<and>
   float_lit (- 8 / 10) = Fin (- (7205759403792793 / 9007199254740992) - 1 / 2 ^ 53) \<and>
   \<bar>- (7205759403792793 / 9007199254740992) - (- 8 / 10 :: rat)\<bar> < 1 / 2 ^ 53"
proof (intro conjI impI)
  assume "float_of_int (5 - q) = Inr k"
  then show "update_ease e q =
        Inr (py_max (float_lit (13 / 10))
               (fadd e (fsub (float_lit (1 / 10))
                          (fmul k (fadd (float_lit (8 / 100)) (fmul k (float_lit (2 / 100))))))))"
    by (rule update_ease_eq)
next
  show "(\<exists>e'. update_ease e q = Inr e') \<longleftrightarrow> \<bar>5 - q\<bar> < 2 ^ 1024 - 2 ^ 970"
    by (rule update_ease_returns_iff)
next
  assume "2 ^ 1024 - 2 ^ 970 \<le> \<bar>5 - q\<bar>"
  then show "update_ease e q = Inl OverflowError" by (rule update_ease_overflow)
next
  show "update_ease e 5 = Inr (py_max (float_lit (13 / 10)) (fadd e (float_lit (1 / 10))))"
    by (rule update_ease_5)
  show "update_ease e 3 =
     Inr (py_max (float_lit (13 / 10)) (fadd e (Fin (- (5044031582654955 / 36028797018963968)))))"
    by (rule update_ease_3)
  show "float_lit (- 14 / 100) = Fin (- (5044031582654955 / 36028797018963968) - 1 / 2 ^ 55)"
    by (rule float_lit_neg_14_100)
  show "\<bar>- (5044031582654955 / 36028797018963968) - (- 14 / 100 :: rat)\<bar> < 1 / 2 ^ 55"
    by simp
  show "update_ease e 0 =
     Inr (py_max (float_lit (13 / 10)) (fadd e (Fin (- (7205759403792793 / 9007199254740992)))))"
    by (rule update_ease_0)
  show "float_lit (- 8 / 10) = Fin (- (7205759403792793 / 9007199254740992) - 1 / 2 ^ 53)"
    by (rule float_lit_neg_8_10)
  show "\<bar>- (7205759403792793 / 9007199254740992) - (- 8 / 10 :: rat)\<bar> < 1 / 2 ^ 53"
    by simp
qed

theorem update_ease_formula_witness:
  "float_of_int (5 - 3) = Inr (Fin 2) \<and>
   update_ease (Fin (5 / 2)) 3 = Inr (Fin (5314247560297185 / 2251799813685248)) \<and>
   \<bar>5 - (3::int)\<bar> < 2 ^ 1024 - 2 ^ 970 \<and>
   (2::int) ^ 1024 - 2 ^ 970 \<le> \<bar>5 - (5 + 2 ^ 1024)\<bar> \<and>
   update_ease (Fin (5 / 2)) (5 + 2 ^ 1024) = Inl OverflowError"
proof -
  have k: "float_of_int (5 - 3) = Inr (Fin 2)" by (simp add: float_eval0)
  have a: "update_ease (Fin (5 / 2)) 3 = Inr (Fin (5314247560297185 / 2251799813685248))"
    using update_ease_formula [of 3 "Fin 2" "Fin (5 / 2)"] k by (simp add: float_eval)
  have b: "(2::int) ^ 1024 - 2 ^ 970 \<le> \<bar>5 - (5 + 2 ^ 1024)\<bar>" by simp
  have c: "update_ease (Fin (5 / 2)) (5 + 2 ^ 1024) = Inl OverflowError"
    using update_ease_formula [of "5 + 2 ^ 1024" "Fin 0" "Fin (5 / 2)"] b by blast
  show ?thesis using k a b c by simp
qed

section \<open>Task ids\<close>

subsection \<open>The line of a task, written and read back\<close>

lemma split_acc_no_sep:
  "d \<notin> set s \<Longrightarrow> split_acc d cur s = [rev cur @ s]"
  by (induction s arbitrary: cur) auto

lemma split_acc_at_sep:
  "d \<notin> set a \<Longrightarrow> split_acc d cur (a @ d # rest) = (rev cur @ a) # split_acc d [] rest"
  by (induction a arbitrary: cur) auto

lemma length_split_acc:
  "length (split_acc d cur s) = length (filter (\<lambda>c. c = d) s) + 1"
  by (induction s arbitrary: cur) auto

lemma split_bar_four:
  assumes "CHR ''|'' \<notin> set a" "CHR ''|'' \<notin> set b" "CHR ''|'' \<notin> set c" "CHR ''|'' \<notin> set d"
  shows "split_bar (join_bar [a, b, c, d]) = [a, b, c, d]"
proof -
  have "split_bar (join_bar [a, b, c, d]) =
          split_acc (CHR ''|'') [] (a @ CHR ''|'' # (b @ CHR ''|'' # (c @ CHR ''|'' # d)))"
    by (simp add: split_bar_def)
  also have "\<dots> = a # split_acc (CHR ''|'') [] (b @ CHR ''|'' # (c @ CHR ''|'' # d))"
    using split_acc_at_sep[OF assms(1), of "[]"] by simp
  also have "\<dots> = a # b # split_acc (CHR ''|'') [] (c @ CHR ''|'' # d)"
    using split_acc_at_sep[OF assms(2), of "[]"] by simp
  also have "\<dots> = a # b # c # split_acc (CHR ''|'') [] d"
    using split_acc_at_sep[OF assms(3), of "[]"] by simp
  also have "\<dots> = [a, b, c, d]"
    using split_acc_no_sep[OF assms(4), of "[]"] by simp
  finally show ?thesis .
qed

lemma read_lines_acc_one_line:
  "CHR 0x0A \<notin> set s \<Longrightarrow> CHR 0x0D \<notin> set s \<Longrightarrow> read_lines_acc cur s = [rev cur @ s]"
  by (induction cur s rule: read_lines_acc.induct) auto

lemma read_lines_one_line:
  "CHR 0x0A \<notin> set s \<Longrightarrow> CHR 0x0D \<notin> set s \<Longrightarrow> read_lines s = [s]"
  by (simp add: read_lines_def read_lines_acc_one_line)

lemma strip_no_space_ends:
  assumes "s \<noteq> []" "\<not> is_space (hd s)" "\<not> is_space (last s)"
  shows "strip s = s"
proof -
  have 1: "dropWhile is_space s = s" using assms(1,2) by (cases s) auto
  have h: "hd (rev s) = last s" using assms(1) by (simp add: hd_rev)
  obtain c cs where r: "rev s = c # cs" using assms(1) by (cases "rev s") auto
  have "c = last s" using h r by simp
  then have "dropWhile is_space (c # cs) = c # cs" using assms(3) by simp
  then have 2: "dropWhile is_space (rev s) = rev s" by (simp only: r)
  show ?thesis by (simp add: strip_def 1 2)
qed

lemma strip_ends:
  assumes "strip s \<noteq> []"
  shows "\<not> is_space (hd (strip s)) \<and> \<not> is_space (last (strip s))"
proof -
  define t where "t = dropWhile is_space s"
  define u where "u = dropWhile is_space (rev t)"
  have su: "strip s = rev u" by (simp add: strip_def t_def u_def)
  have une: "u \<noteq> []" using assms su by simp
  then have "\<not> is_space (hd u)" unfolding u_def by (rule hd_dropWhile)
  then have a: "\<not> is_space (last (strip s))" using une by (simp add: su last_rev)
  have tne: "t \<noteq> []" using une by (auto simp: u_def)
  then have ht: "\<not> is_space (hd t)" unfolding t_def by (rule hd_dropWhile)
  obtain v where v: "rev t = v @ u" unfolding u_def
    by (metis takeWhile_dropWhile_id)
  have "last u = last (rev t)" using une by (simp add: v)
  also have "\<dots> = hd t" using tne by (simp add: last_rev)
  finally have "hd (strip s) = hd t" using une by (simp add: su hd_rev)
  then show ?thesis using ht a by simp
qed

lemma strip_strip: "strip (strip s) = strip s"
proof (cases "strip s = []")
  case True
  have "strip [] = []" by (simp add: strip_def)
  then show ?thesis by (simp only: True)
next
  case False
  then show ?thesis using strip_ends[OF False] by (intro strip_no_space_ends) auto
qed


lemma of_char_digit_char: "d < 10 \<Longrightarrow> (of_char (digit_char d) :: nat) = 48 + d"
  by (simp add: digit_char_def)

lemma str_of_nat_digits:
  "c \<in> set (str_of_nat n) \<Longrightarrow> 48 \<le> (of_char c :: nat) \<and> (of_char c :: nat) \<le> 57"
proof (induction n arbitrary: c rule: str_of_nat.induct)
  case (1 n)
  show ?case
  proof (cases "n < 10")
    case True
    then have "c = digit_char n" using "1.prems" by (simp add: str_of_nat.simps[of n])
    then show ?thesis using of_char_digit_char[OF True] True by simp
  next
    case False
    then have "c \<in> set (str_of_nat (n div 10)) \<or> c = digit_char (n mod 10)"
      using "1.prems" by (auto simp: str_of_nat.simps[of n])
    then show ?thesis
    proof
      assume "c \<in> set (str_of_nat (n div 10))"
      then show ?thesis using "1.IH"[OF False] by blast
    next
      assume c: "c = digit_char (n mod 10)"
      have "n mod 10 < 10" by simp
      from of_char_digit_char[OF this] show ?thesis by (simp add: c)
    qed
  qed
qed

lemma str_of_nat_nonempty: "str_of_nat n \<noteq> []"
  by (simp add: str_of_nat.simps[of n])

lemma length_str_of_nat_le:
  "length (str_of_nat n) \<le> k \<longleftrightarrow> 0 < k \<and> n < 10 ^ k"
proof (induction n arbitrary: k rule: str_of_nat.induct)
  case (1 n)
  show ?case
  proof (cases "n < 10")
    case True
    have "0 < k \<Longrightarrow> n < 10 ^ k"
    proof -
      assume "0 < k"
      then have "(10::nat) ^ 1 \<le> 10 ^ k" by (intro power_increasing) auto
      then show ?thesis using True by simp
    qed
    then show ?thesis using True by (auto simp: str_of_nat.simps[of n])
  next
    case False
    have "length (str_of_nat n) \<le> k \<longleftrightarrow> 0 < k \<and> length (str_of_nat (n div 10)) \<le> k - 1"
      using False by (auto simp: str_of_nat.simps[of n])
    also have "\<dots> \<longleftrightarrow> 0 < k \<and> 0 < k - 1 \<and> n div 10 < 10 ^ (k - 1)"
      using "1.IH"[OF False, of "k - 1"] by simp
    also have "\<dots> \<longleftrightarrow> 0 < k \<and> n < 10 ^ k"
    proof (cases k)
      case 0
      then show ?thesis by simp
    next
      case (Suc j)
      have "n div 10 < 10 ^ j \<longleftrightarrow> n < 10 ^ j * 10"
        by (simp add: div_less_iff_less_mult)
      moreover have "j = 0 \<Longrightarrow> \<not> n < 10 ^ j * 10" using False by simp
      ultimately show ?thesis using Suc by (cases "j = 0") (auto simp: mult.commute)
    qed
    finally show ?thesis .
  qed
qed

lemma nat_abs_less_power:
  "nat \<bar>n\<bar> < 10 ^ k \<longleftrightarrow> \<bar>n\<bar> < 10 ^ k"
proof -
  have "nat \<bar>n\<bar> < 10 ^ k \<longleftrightarrow> int (nat \<bar>n\<bar>) < int (10 ^ k)" by (simp only: of_nat_less_iff)
  also have "int (nat \<bar>n\<bar>) = \<bar>n\<bar>" by simp
  also have "int (10 ^ k) = 10 ^ k" by (simp only: of_nat_power of_nat_numeral)
  finally show ?thesis .
qed

lemma py_str_Inr_iff:
  "(\<exists>t. py_str n = Inr t) \<longleftrightarrow> \<bar>n\<bar> < 10 ^ max_str_digits"
proof -
  have "0 < max_str_digits" by (simp add: max_str_digits_def)
  then have "length (str_of_nat (nat \<bar>n\<bar>)) \<le> max_str_digits \<longleftrightarrow> \<bar>n\<bar> < 10 ^ max_str_digits"
    by (simp add: length_str_of_nat_le nat_abs_less_power)
  then show ?thesis by (auto simp: py_str_def Let_def not_less)
qed

lemma py_str_chars:
  assumes "py_str n = Inr t" "c \<in> set t"
  shows "45 \<le> (of_char c :: nat) \<and> (of_char c :: nat) \<le> 57"
proof -
  have "c = CHR ''-'' \<or> c \<in> set (str_of_nat (nat \<bar>n\<bar>))"
    using assms by (auto simp: py_str_def Let_def split: if_splits)
  then show ?thesis using str_of_nat_digits[of c "nat \<bar>n\<bar>"] by auto
qed

lemma py_str_nonempty: "py_str n = Inr t \<Longrightarrow> t \<noteq> []"
  by (auto simp: py_str_def Let_def str_of_nat_nonempty split: if_splits)

lemma plain_char:
  assumes "45 \<le> (of_char c :: nat) \<and> (of_char c :: nat) \<le> 57"
  shows "c \<noteq> CHR ''|''" "c \<noteq> CHR 0x0A" "c \<noteq> CHR 0x0D" "\<not> is_space c"
  using assms by (auto simp: is_space_def)

lemma py_str_plain:
  assumes "py_str n = Inr t"
  shows "CHR ''|'' \<notin> set t" "CHR 0x0A \<notin> set t" "CHR 0x0D \<notin> set t" "strip t = t"
proof -
  show "CHR ''|'' \<notin> set t" "CHR 0x0A \<notin> set t" "CHR 0x0D \<notin> set t"
    using py_str_chars[OF assms] plain_char by blast+
  have ne: "t \<noteq> []" using assms by (rule py_str_nonempty)
  then have "hd t \<in> set t" "last t \<in> set t" by simp_all
  then have "\<not> is_space (hd t)" "\<not> is_space (last t)"
    using py_str_chars[OF assms] plain_char(4) by blast+
  then show "strip t = t" using ne by (intro strip_no_space_ends)
qed

lemma status_todo_plain:
  "CHR ''|'' \<notin> set STATUS_TODO" "CHR 0x0A \<notin> set STATUS_TODO" "CHR 0x0D \<notin> set STATUS_TODO"
  "strip STATUS_TODO = STATUS_TODO"
  by (simp_all add: STATUS_TODO_def strip_def is_space_def)


lemma parse_task_join_clean:
  assumes "CHR ''|'' \<notin> set a" "CHR ''|'' \<notin> set b" "CHR ''|'' \<notin> set c" "CHR ''|'' \<notin> set d"
    and "strip a = a" "strip b = b" "strip c = c" "strip d = d"
  shows "parse_task (join_bar [a, b, c, d]) = Some (a, b, c, d)"
  by (simp add: parse_task_def split_bar_four[OF assms(1-4)] assms(5-8) del: join_bar.simps)

lemma parse_task_join_bar:
  assumes "CHR ''|'' \<in> set b \<or> CHR ''|'' \<in> set c"
  shows "parse_task (join_bar [a, b, c, d]) = None"
proof -
  have "4 < length (split_bar (join_bar [a, b, c, d]))"
    using assms unfolding split_bar_def length_split_acc by (auto simp: filter_empty_conv)
  then have "length (map strip (split_bar (join_bar [a, b, c, d]))) \<noteq> 4" by simp
  then show ?thesis
    unfolding parse_task_def by (auto split: list.splits)
qed

lemma join_bar_one_line:
  assumes "c \<notin> set a" "c \<notin> set b" "c \<notin> set e" "c \<notin> set d" "c \<noteq> CHR ''|''"
  shows "c \<notin> set (join_bar [a, b, e, d])"
  using assms by simp

lemma save_with_new_task_clean:
  assumes id: "py_str (t_id t) = Inr id_text"
    and st: "t_status t = STATUS_TODO"
    and s: "CHR ''|'' \<notin> set (t_subject t)" "CHR 0x0A \<notin> set (t_subject t)"
           "CHR 0x0D \<notin> set (t_subject t)" "strip (t_subject t) = t_subject t"
    and u: "CHR ''|'' \<notin> set (t_title t)" "CHR 0x0A \<notin> set (t_title t)"
           "CHR 0x0D \<notin> set (t_title t)" "strip (t_title t) = t_title t"
  shows "save_with_new_task tasks t id_text st0 = Some (save_tasks (tasks @ [t]) st0)"
proof -
  let ?line = "join_bar [id_text, t_subject t, t_title t, t_status t]"
  have "CHR 0x0A \<notin> set ?line"
    using py_str_plain(2)[OF id] status_todo_plain(2) s(2) u(2) st
    by (intro join_bar_one_line) simp_all
  moreover have "CHR 0x0D \<notin> set ?line"
    using py_str_plain(3)[OF id] status_todo_plain(3) s(3) u(3) st
    by (intro join_bar_one_line) simp_all
  ultimately have r: "read_lines ?line = [?line]" by (rule read_lines_one_line)
  have p: "parse_task ?line = Some (id_text, t_subject t, t_title t, t_status t)"
    using py_str_plain(1,4)[OF id] status_todo_plain(1,4) s(1,4) u(1,4) st
    by (intro parse_task_join_clean) simp_all
  show ?thesis
    by (simp add: save_with_new_task_def r p del: join_bar.simps)
qed

lemma save_with_new_task_bar:
  assumes id: "py_str (t_id t) = Inr id_text"
    and st: "t_status t = STATUS_TODO"
    and s: "CHR 0x0A \<notin> set (t_subject t)" "CHR 0x0D \<notin> set (t_subject t)"
    and u: "CHR 0x0A \<notin> set (t_title t)" "CHR 0x0D \<notin> set (t_title t)"
    and bar: "CHR ''|'' \<in> set (t_subject t) \<or> CHR ''|'' \<in> set (t_title t)"
  shows "save_with_new_task tasks t id_text st0 = Some (save_tasks tasks st0)"
proof -
  let ?line = "join_bar [id_text, t_subject t, t_title t, t_status t]"
  have "CHR 0x0A \<notin> set ?line"
    using py_str_plain(2)[OF id] status_todo_plain(2) s(1) u(1) st
    by (intro join_bar_one_line) simp_all
  moreover have "CHR 0x0D \<notin> set ?line"
    using py_str_plain(3)[OF id] status_todo_plain(3) s(2) u(2) st
    by (intro join_bar_one_line) simp_all
  ultimately have r: "read_lines ?line = [?line]" by (rule read_lines_one_line)
  have p: "parse_task ?line = None" using bar by (rule parse_task_join_bar)
  show ?thesis
    by (simp add: save_with_new_task_def r p del: join_bar.simps)
qed

lemma next_task_id_eq:
  "next_task_id ts = (if ts = [] then 1 else Max (t_id ` set ts) + 1)"
proof (cases ts)
  case Nil
  then show ?thesis by (simp add: next_task_id_def)
next
  case (Cons t ts')
  have "fold max (map t_id ts') (t_id t) = Max (set (t_id t # map t_id ts'))"
    by (simp only: Max.set_eq_fold)
  then show ?thesis using Cons by (simp add: next_task_id_def)
qed

lemma next_task_id_fresh: "next_task_id ts \<notin> t_id ` set ts"
proof
  assume a: "next_task_id ts \<in> t_id ` set ts"
  then have ne: "ts \<noteq> []" by auto
  have "next_task_id ts \<le> Max (t_id ` set ts)" using a by (intro Max_ge) auto
  then show False using ne by (simp add: next_task_id_eq)
qed

lemma next_task_id_snoc:
  "next_task_id (ts @ [\<lparr>t_id = next_task_id ts, t_subject = s, t_title = u, t_status = x\<rparr>]) =
     next_task_id ts + 1"
proof (cases "ts = []")
  case True
  then show ?thesis by (simp add: next_task_id_def)
next
  case False
  have "Max (insert (Max (t_id ` set ts) + 1) (t_id ` set ts)) = Max (t_id ` set ts) + 1"
    using False by (subst Max_insert) auto
  then show ?thesis using False by (simp add: next_task_id_eq)
qed

lemma cmd_add_task_usage:
  "strip subject = [] \<or> strip title = [] \<Longrightarrow>
   cmd_add_task today subject title st = Inr (Add_task_usage, Some st)"
  by (auto simp: cmd_add_task_def Let_def)

lemma tasks_file_registered [simp]:
  "tasks_file (if b then append_subject s st else st) = tasks_file st"
  by (simp add: append_subject_def)

lemma cmd_add_task_overflow:
  assumes "strip subject \<noteq> []" "strip title \<noteq> []"
    and "\<not> \<bar>next_task_id (tasks_file st)\<bar> < 10 ^ max_str_digits"
  shows "\<exists>st1. cmd_add_task today subject title st = Inl (ValueError, st1) \<and>
               tasks_file st1 = tasks_file st \<and> reviews_file st1 = reviews_file st"
proof -
  have "\<not> (\<exists>t. py_str (next_task_id (tasks_file st)) = Inr t)"
    using assms(3) py_str_Inr_iff by blast
  then have "py_str (next_task_id (tasks_file st)) = Inl ValueError"
    by (auto simp: py_str_def Let_def split: if_splits)
  then show ?thesis using assms(1,2)
    by (simp add: cmd_add_task_def Let_def tasks_list_def append_subject_def)
qed

lemma cmd_add_task_added:
  assumes ne: "strip subject \<noteq> []" "strip title \<noteq> []"
    and lb: "CHR 0x0A \<notin> set (strip subject)" "CHR 0x0D \<notin> set (strip subject)"
            "CHR 0x0A \<notin> set (strip title)" "CHR 0x0D \<notin> set (strip title)"
    and sz: "\<bar>next_task_id (tasks_file st)\<bar> < 10 ^ max_str_digits"
  shows "\<exists>st'. cmd_add_task today subject title st =
                 Inr (Added_task (next_task_id (tasks_file st)) (strip subject) (strip title),
                      Some st') \<and>
               tasks_file st' =
                 (if CHR ''|'' \<in> set (strip subject) \<or> CHR ''|'' \<in> set (strip title)
                  then tasks_file st
                  else tasks_file st @
                    [\<lparr>t_id = next_task_id (tasks_file st), t_subject = strip subject,
                       t_title = strip title, t_status = STATUS_TODO\<rparr>]) \<and>
               find (\<lambda>r. task_id r = next_task_id (tasks_file st)) (reviews_file st') =
                 Some \<lparr>task_id = next_task_id (tasks_file st), interval_days = 1, due = today,
                        ease = stored_ease (float_lit (5 / 2))\<rparr>"
proof -
  define n where "n = next_task_id (tasks_file st)"
  define t where "t = \<lparr>t_id = n, t_subject = strip subject, t_title = strip title,
                        t_status = STATUS_TODO\<rparr>"
  define st1 where "st1 = (if lower (strip subject) \<notin> set (map lower (subjects_list st))
                           then append_subject (strip subject) st else st)"
  have tf: "tasks_file st1 = tasks_file st" by (simp add: st1_def)
  obtain id_text where id: "py_str n = Inr id_text"
    using sz py_str_Inr_iff[of n] by (auto simp: n_def)
  have id': "py_str (t_id t) = Inr id_text" using id by (simp add: t_def)
  have ts: "t_status t = STATUS_TODO" by (simp add: t_def)
  have run: "cmd_add_task today subject title st =
               Inr (Added_task n (strip subject) (strip title),
                    map_option (upsert_review n 1 today (float_lit (5 / 2)))
                      (save_with_new_task (tasks_file st) t id_text st1))"
    using ne id by (simp add: cmd_add_task_def Let_def tasks_list_def n_def[symmetric]
        st1_def t_def[symmetric] append_subject_def)
  show ?thesis
  proof (cases "CHR ''|'' \<in> set (strip subject) \<or> CHR ''|'' \<in> set (strip title)")
    case True
    have "save_with_new_task (tasks_file st) t id_text st1 = Some (save_tasks (tasks_file st) st1)"
      using lb True by (intro save_with_new_task_bar[OF id' ts]) (simp_all add: t_def)
    then show ?thesis using True run
      by (simp add: n_def[symmetric] save_tasks_def find_upsert_review)
  next
    case False
    have "save_with_new_task (tasks_file st) t id_text st1 =
            Some (save_tasks (tasks_file st @ [t]) st1)"
      using lb False by (intro save_with_new_task_clean[OF id' ts]) (simp_all add: t_def strip_strip)
    then show ?thesis using False run
      by (simp add: n_def[symmetric] t_def save_tasks_def find_upsert_review)
  qed
qed

lemma cmd_clear_tasks_kept:
  "target \<noteq> ''all'' \<Longrightarrow> target \<noteq> ''tasks'' \<Longrightarrow>
   tasks_file (snd (cmd_clear target st)) = tasks_file st"
  by (auto simp: cmd_clear_def clear_mapping_def split: option.splits if_splits)

lemma cmd_clear_tasks_emptied:
  "target = ''all'' \<or> target = ''tasks'' \<Longrightarrow> tasks_file (snd (cmd_clear target st)) = []"
  by (auto simp: cmd_clear_def clear_mapping_def)

subsection \<open>The id of an added task\<close>

lemmas string_eval = strip_def is_space_def lower_def lower_char_def

lemma digit_char_eval:
  "digit_char 0 = CHR ''0''" "digit_char 1 = CHR ''1''" "digit_char 2 = CHR ''2''"
  "digit_char 3 = CHR ''3''" "digit_char 4 = CHR ''4''" "digit_char 5 = CHR ''5''"
  "digit_char 6 = CHR ''6''" "digit_char 7 = CHR ''7''" "digit_char 8 = CHR ''8''"
  "digit_char 9 = CHR ''9''" "digit_char (Suc 0) = CHR ''1''"
  unfolding digit_char_def by (rule of_char_eqI[where ?'a = nat], simp)+

lemmas task_line_eval = py_str_def max_str_digits_def str_of_nat.simps digit_char_eval
  save_with_new_task_def read_lines_def parse_task_def split_bar_def

lemma add_after_clear_tasks:
  "cmd_add_task 738000 ''Math'' ''Topology'' (snd (cmd_clear ''tasks'' three_tasks_store)) =
     Inr (Added_task 1 ''Math'' ''Topology'',
      Some (three_tasks_store\<lparr>
        tasks_file := [\<lparr>t_id = 1, t_subject = ''Math'', t_title = ''Topology'', t_status = ''todo''\<rparr>],
        reviews_file :=
        [\<lparr>task_id = 1, interval_days = 1, due = 738000, ease = Fin (5 / 2)\<rparr>,
         \<lparr>task_id = 2, interval_days = 1, due = 738000, ease = Fin (5 / 2)\<rparr>,
         \<lparr>task_id = 3, interval_days = 1, due = 738000, ease = Fin (5 / 2)\<rparr>]\<rparr>))"
  by (simp add: cmd_add_task_def cmd_clear_def clear_mapping_def three_tasks_store_def
        subjects_list_def tasks_list_def save_tasks_def next_task_id_def append_subject_def
        STATUS_TODO_def upsert_review_def save_reviews_def load_reviews_def string_eval
        task_line_eval float_eval)

lemma add_with_bar:
  "cmd_add_task 738000 ''Math'' ''a|b'' three_tasks_store =
     Inr (Added_task 4 ''Math'' ''a|b'',
      Some (three_tasks_store\<lparr>
        reviews_file :=
        [\<lparr>task_id = 1, interval_days = 1, due = 738000, ease = Fin (5 / 2)\<rparr>,
         \<lparr>task_id = 2, interval_days = 1, due = 738000, ease = Fin (5 / 2)\<rparr>,
         \<lparr>task_id = 3, interval_days = 1, due = 738000, ease = Fin (5 / 2)\<rparr>,
         \<lparr>task_id = 4, interval_days = 1, due = 738000, ease = Fin (5 / 2)\<rparr>]\<rparr>))"
  by (simp add: cmd_add_task_def three_tasks_store_def
        subjects_list_def tasks_list_def save_tasks_def next_task_id_def append_subject_def
        STATUS_TODO_def upsert_review_def save_reviews_def load_reviews_def string_eval
        task_line_eval float_eval)

lemma add_after_bar:
  "cmd_add_task 738000 ''Math'' ''Topology''
     (three_tasks_store\<lparr>
        reviews_file :=
        [\<lparr>task_id = 1, interval_days = 1, due = 738000, ease = Fin (5 / 2)\<rparr>,
         \<lparr>task_id = 2, interval_days = 1, due = 738000, ease = Fin (5 / 2)\<rparr>,
         \<lparr>task_id = 3, interval_days = 1, due = 738000, ease = Fin (5 / 2)\<rparr>,
         \<lparr>task_id = 4, interval_days = 1, due = 738000, ease = Fin (5 / 2)\<rparr>]\<rparr>) =
     Inr (Added_task 4 ''Math'' ''Topology'',
      Some (three_tasks_store\<lparr>
        tasks_file := tasks_file three_tasks_store @
          [\<lparr>t_id = 4, t_subject = ''Math'', t_title = ''Topology'', t_status = ''todo''\<rparr>],
        reviews_file :=
        [\<lparr>task_id = 1, interval_days = 1, due = 738000, ease = Fin (5 / 2)\<rparr>,
         \<lparr>task_id = 2, interval_days = 1, due = 738000, ease = Fin (5 / 2)\<rparr>,
         \<lparr>task_id = 3, interval_days = 1, due = 738000, ease = Fin (5 / 2)\<rparr>,
         \<lparr>task_id = 4, interval_days = 1, due = 738000, ease = Fin (5 / 2)\<rparr>]\<rparr>))"
  by (simp add: cmd_add_task_def three_tasks_store_def
        subjects_list_def tasks_list_def save_tasks_def next_task_id_def append_subject_def
        STATUS_TODO_def upsert_review_def save_reviews_def load_reviews_def string_eval
        task_line_eval float_eval)

lemma cmd_add_task_message:
  assumes "strip subject \<noteq> []" "strip title \<noteq> []"
    and "\<bar>next_task_id (tasks_file st)\<bar> < 10 ^ max_str_digits"
  shows "\<exists>so. cmd_add_task today subject title st =
                Inr (Added_task (next_task_id (tasks_file st)) (strip subject) (strip title), so)"
proof -
  obtain id_text where "py_str (next_task_id (tasks_file st)) = Inr id_text"
    using assms(3) py_str_Inr_iff by blast
  then show ?thesis using assms(1,2)
    by (simp add: cmd_add_task_def Let_def tasks_list_def)
qed

lemma small_id_has_text: "(4::int) < 10 ^ max_str_digits"
proof -
  have "(10::int) ^ 1 \<le> 10 ^ max_str_digits"
    by (rule power_increasing) (simp_all add: max_str_digits_def)
  then show ?thesis by simp
qed

text \<open>
  Claim C8 says that ids are never reused, also after a clear of a subset of the stores.
  After the tasks 1, 2 and 3, a clear of the task store alone makes the next id 1 again.
  And with no clear at all: the line of a task whose title holds the field separator has
  five fields and is skipped when the tasks are read, so the id 4 that was printed for
  it is assigned to the next task too.
\<close>

theorem task_id_reused_counterexample:
  "map t_id (tasks_file three_tasks_store) = [1, 2, 3] \<and>
   cmd_add_task 738000 ''Math'' ''Topology'' (snd (cmd_clear ''tasks'' three_tasks_store)) =
     Inr (Added_task 1 ''Math'' ''Topology'',
      Some (three_tasks_store\<lparr>
        tasks_file := [\<lparr>t_id = 1, t_subject = ''Math'', t_title = ''Topology'', t_status = ''todo''\<rparr>],
        reviews_file :=
        [\<lparr>task_id = 1, interval_days = 1, due = 738000, ease = Fin (5 / 2)\<rparr>,
         \<lparr>task_id = 2, interval_days = 1, due = 738000, ease = Fin (5 / 2)\<rparr>,
         \<lparr>task_id = 3, interval_days = 1, due = 738000, ease = Fin (5 / 2)\<rparr>]\<rparr>)) \<and>
   cmd_add_task 738000 ''Math'' ''a|b'' three_tasks_store =
     Inr (Added_task 4 ''Math'' ''a|b'',
      Some (three_tasks_store\<lparr>
        reviews_file :=
        [\<lparr>task_id = 1, interval_days = 1, due = 738000, ease = Fin (5 / 2)\<rparr>,
         \<lparr>task_id = 2, interval_days = 1, due = 738000, ease = Fin (5 / 2)\<rparr>,
         \<lparr>task_id = 3, interval_days = 1, due = 738000, ease = Fin (5 / 2)\<rparr>,
         \<lparr>task_id = 4, interval_days = 1, due = 738000, ease = Fin (5 / 2)\<rparr>]\<rparr>)) \<and>
   cmd_add_task 738000 ''Math'' ''Topology''
     (three_tasks_store\<lparr>
        reviews_file :=
        [\<lparr>task_id = 1, interval_days = 1, due = 738000, ease = Fin (5 / 2)\<rparr>,
         \<lparr>task_id = 2, interval_days = 1, due = 738000, ease = Fin (5 / 2)\<rparr>,
         \<lparr>task_id = 3, interval_days = 1, due = 738000, ease = Fin (5 / 2)\<rparr>,
         \<lparr>task_id = 4, interval_days = 1, due = 738000, ease = Fin (5 / 2)\<rparr>]\<rparr>) =
     Inr (Added_task 4 ''Math'' ''Topology'',
      Some (three_tasks_store\<lparr>
        tasks_file := tasks_file three_tasks_store @
          [\<lparr>t_id = 4, t_subject = ''Math'', t_title = ''Topology'', t_status = ''todo''\<rparr>],
        reviews_file :=
        [\<lparr>task_id = 1, interval_days = 1, due = 738000, ease = Fin (5 / 2)\<rparr>,
         \<lparr>task_id = 2, interval_days = 1, due = 738000, ease = Fin (5 / 2)\<rparr>,
         \<lparr>task_id = 3, interval_days = 1, due = 738000, ease = Fin (5 / 2)\<rparr>,
         \<lparr>task_id = 4, interval_days = 1, due = 738000, ease = Fin (5 / 2)\<rparr>]\<rparr>))"
proof -
  have "map t_id (tasks_file three_tasks_store) = [1, 2, 3]"
    by (simp add: three_tasks_store_def)
  then show ?thesis
    using add_after_clear_tasks add_with_bar add_after_bar by (simp only: simp_thms)
qed

text \<open>
  Claim C8, amended. The subject and the title are strings of code points below 256,
  and \<open>n\<close> is 1 when the task store is empty and the greatest id plus 1 otherwise. When
  the subject or the title is empty once stripped, adding a task prints the usage line
  and changes nothing. Otherwise \<open>n\<close> is an id that no task of the store has, and: when
  \<open>n\<close> has more than 4300 digits, \<^verbatim>\<open>str\<close> raises and no task is added; else the
  task is announced with the id \<open>n\<close>. When moreover the stripped subject and title hold
  no line break, the task is stored with the id \<open>n\<close> at the end of the task store, and
  the next id is \<open>n + 1\<close>, if they hold no field separator; if they hold one, the task
  store and the next id stay as they were. A clear of the subjects, the reviews or the
  sessions leaves the task store, and so the next id, as it was; a clear of the tasks or
  of all files empties the task store, and the next id is 1 again.
\<close>

theorem add_task_id_assignment:
  "(strip subject = [] \<or> strip title = [] \<longrightarrow>
      cmd_add_task today subject title st = Inr (Add_task_usage, Some st)) \<and>
   (strip subject \<noteq> [] \<and> strip title \<noteq> [] \<and>
    n = (if tasks_file st = [] then 1 else Max (t_id ` set (tasks_file st)) + 1) \<longrightarrow>
      n = next_task_id (tasks_file st) \<and>
      n \<notin> t_id ` set (tasks_file st) \<and>
      (\<not> \<bar>n\<bar> < 10 ^ max_str_digits \<longrightarrow>
         (\<exists>st1. cmd_add_task today subject title st = Inl (ValueError, st1) \<and>
                tasks_file st1 = tasks_file st)) \<and>
      (\<bar>n\<bar> < 10 ^ max_str_digits \<longrightarrow>
         (\<exists>so. cmd_add_task today subject title st =
                 Inr (Added_task n (strip subject) (strip title), so))) \<and>
      (\<bar>n\<bar> < 10 ^ max_str_digits \<and>
       CHR 0x0A \<notin> set (strip subject) \<union> set (strip title) \<and>
       CHR 0x0D \<notin> set (strip subject) \<union> set (strip title) \<longrightarrow>
         (\<exists>st'. cmd_add_task today subject title st =
                  Inr (Added_task n (strip subject) (strip title), Some st') \<and>
                (CHR ''|'' \<notin> set (strip subject) \<union> set (strip title) \<longrightarrow>
                   tasks_file st' = tasks_file st @
                     [\<lparr>t_id = n, t_subject = strip subject, t_title = strip title,
                        t_status = STATUS_TODO\<rparr>] \<and>
                   next_task_id (tasks_file st') = n + 1) \<and>
                (CHR ''|'' \<in> set (strip subject) \<union> set (strip title) \<longrightarrow>
                   tasks_file st' = tasks_file st \<and>
                   next_task_id (tasks_file st') = n)))) \<and>
   (target \<noteq> ''all'' \<and> target \<noteq> ''tasks'' \<longrightarrow>
      tasks_file (snd (cmd_clear target st)) = tasks_file st) \<and>
   (target = ''all'' \<or> target = ''tasks'' \<longrightarrow> tasks_file (snd (cmd_clear target st)) = [])"
proof (intro conjI impI)
  assume "strip subject = [] \<or> strip title = []"
  then show "cmd_add_task today subject title st = Inr (Add_task_usage, Some st)"
    by (rule cmd_add_task_usage)
next
  assume a: "strip subject \<noteq> [] \<and> strip title \<noteq> [] \<and>
    n = (if tasks_file st = [] then 1 else Max (t_id ` set (tasks_file st)) + 1)"
  then show n: "n = next_task_id (tasks_file st)" by (simp only: next_task_id_eq)
  show "n \<notin> t_id ` set (tasks_file st)" unfolding n by (rule next_task_id_fresh)
  {
    assume "\<not> \<bar>n\<bar> < 10 ^ max_str_digits"
    then have "\<exists>st1. cmd_add_task today subject title st = Inl (ValueError, st1) \<and>
                 tasks_file st1 = tasks_file st \<and> reviews_file st1 = reviews_file st"
      using a unfolding n by (intro cmd_add_task_overflow) simp_all
    then show "\<exists>st1. cmd_add_task today subject title st = Inl (ValueError, st1) \<and>
                 tasks_file st1 = tasks_file st"
      by blast
  }
  {
    assume "\<bar>n\<bar> < 10 ^ max_str_digits"
    then show "\<exists>so. cmd_add_task today subject title st =
                 Inr (Added_task n (strip subject) (strip title), so)"
      using a unfolding n by (intro cmd_add_task_message) simp_all
  }
  {
    assume b: "\<bar>n\<bar> < 10 ^ max_str_digits \<and>
       CHR 0x0A \<notin> set (strip subject) \<union> set (strip title) \<and>
       CHR 0x0D \<notin> set (strip subject) \<union> set (strip title)"
    have "\<exists>st'. cmd_add_task today subject title st =
                 Inr (Added_task (next_task_id (tasks_file st)) (strip subject) (strip title),
                      Some st') \<and>
               tasks_file st' =
                 (if CHR ''|'' \<in> set (strip subject) \<or> CHR ''|'' \<in> set (strip title)
                  then tasks_file st
                  else tasks_file st @
                    [\<lparr>t_id = next_task_id (tasks_file st), t_subject = strip subject,
                       t_title = strip title, t_status = STATUS_TODO\<rparr>]) \<and>
               find (\<lambda>r. task_id r = next_task_id (tasks_file st)) (reviews_file st') =
                 Some \<lparr>task_id = next_task_id (tasks_file st), interval_days = 1, due = today,
                        ease = stored_ease (float_lit (5 / 2))\<rparr>"
      using a b unfolding n by (intro cmd_add_task_added) simp_all
    then obtain st' where
      r: "cmd_add_task today subject title st =
            Inr (Added_task n (strip subject) (strip title), Some st')"
      and t: "tasks_file st' =
                 (if CHR ''|'' \<in> set (strip subject) \<or> CHR ''|'' \<in> set (strip title)
                  then tasks_file st
                  else tasks_file st @
                    [\<lparr>t_id = n, t_subject = strip subject,
                       t_title = strip title, t_status = STATUS_TODO\<rparr>])"
      unfolding n by blast
    have "next_task_id (tasks_file st @
                    [\<lparr>t_id = n, t_subject = strip subject,
                       t_title = strip title, t_status = STATUS_TODO\<rparr>]) = n + 1"
      unfolding n by (rule next_task_id_snoc)
    then have "(CHR ''|'' \<notin> set (strip subject) \<union> set (strip title) \<longrightarrow>
                   tasks_file st' = tasks_file st @
                     [\<lparr>t_id = n, t_subject = strip subject, t_title = strip title,
                        t_status = STATUS_TODO\<rparr>] \<and>
                   next_task_id (tasks_file st') = n + 1) \<and>
                (CHR ''|'' \<in> set (strip subject) \<union> set (strip title) \<longrightarrow>
                   tasks_file st' = tasks_file st \<and>
                   next_task_id (tasks_file st') = n)"
      using t n by auto
    then show "\<exists>st'. cmd_add_task today subject title st =
                  Inr (Added_task n (strip subject) (strip title), Some st') \<and>
                (CHR ''|'' \<notin> set (strip subject) \<union> set (strip title) \<longrightarrow>
                   tasks_file st' = tasks_file st @
                     [\<lparr>t_id = n, t_subject = strip subject, t_title = strip title,
                        t_status = STATUS_TODO\<rparr>] \<and>
                   next_task_id (tasks_file st') = n + 1) \<and>
                (CHR ''|'' \<in> set (strip subject) \<union> set (strip title) \<longrightarrow>
                   tasks_file st' = tasks_file st \<and>
                   next_task_id (tasks_file st') = n)"
      using r by blast
  }
next
  assume "target \<noteq> ''all'' \<and> target \<noteq> ''tasks''"
  then show "tasks_file (snd (cmd_clear target st)) = tasks_file st"
    by (simp add: cmd_clear_tasks_kept)
next
  assume "target = ''all'' \<or> target = ''tasks''"
  then show "tasks_file (snd (cmd_clear target st)) = []"
    by (rule cmd_clear_tasks_emptied)
qed

theorem add_task_id_assignment_witness:
  "map t_id (tasks_file three_tasks_store) = [1, 2, 3] \<and>
   tasks_file (snd (cmd_clear ''sessions'' three_tasks_store)) = tasks_file three_tasks_store \<and>
   strip ''Math'' = ''Math'' \<and> strip ''Topology'' = ''Topology'' \<and> strip ''a|b'' = ''a|b'' \<and>
   (4::int) < 10 ^ max_str_digits \<and>
   (\<exists>st'. cmd_add_task 738000 ''Math'' ''Topology'' (snd (cmd_clear ''sessions'' three_tasks_store)) =
            Inr (Added_task 4 ''Math'' ''Topology'', Some st') \<and>
          tasks_file st' = tasks_file three_tasks_store @
            [\<lparr>t_id = 4, t_subject = ''Math'', t_title = ''Topology'', t_status = ''todo''\<rparr>] \<and>
          next_task_id (tasks_file st') = 5) \<and>
   (\<exists>st'. cmd_add_task 738000 ''Math'' ''a|b'' three_tasks_store =
            Inr (Added_task 4 ''Math'' ''a|b'', Some st') \<and>
          tasks_file st' = tasks_file three_tasks_store \<and>
          next_task_id (tasks_file st') = 4) \<and>
   cmd_add_task 738000 ''Math'' [CHR 0xA0] three_tasks_store =
     Inr (Add_task_usage, Some three_tasks_store)"
proof -
  have s: "strip ''Math'' = ''Math''" "strip ''Topology'' = ''Topology''" "strip ''a|b'' = ''a|b''"
    "strip [CHR 0xA0] = []"
    by (simp_all add: string_eval)
  have t: "map t_id (tasks_file three_tasks_store) = [1, 2, 3]"
    and ne: "tasks_file three_tasks_store \<noteq> []"
    and m: "Max (t_id ` set (tasks_file three_tasks_store)) = 3"
    by (simp_all add: three_tasks_store_def)
  have k: "tasks_file (snd (cmd_clear ''sessions'' three_tasks_store)) = tasks_file three_tasks_store"
    by (simp add: cmd_clear_def clear_mapping_def)
  have z: "\<bar>4::int\<bar> < 10 ^ max_str_digits" using small_id_has_text by simp
  have a: "\<exists>st'. cmd_add_task 738000 ''Math'' ''Topology'' (snd (cmd_clear ''sessions'' three_tasks_store)) =
            Inr (Added_task 4 ''Math'' ''Topology'', Some st') \<and>
          tasks_file st' = tasks_file three_tasks_store @
            [\<lparr>t_id = 4, t_subject = ''Math'', t_title = ''Topology'', t_status = ''todo''\<rparr>] \<and>
          next_task_id (tasks_file st') = 5"
    using add_task_id_assignment [where subject = "''Math''" and title = "''Topology''"
        and st = "snd (cmd_clear ''sessions'' three_tasks_store)" and n = 4 and today = 738000
        and target = "''sessions''"] z
    by (simp add: s k ne m STATUS_TODO_def)
  have b: "\<exists>st'. cmd_add_task 738000 ''Math'' ''a|b'' three_tasks_store =
            Inr (Added_task 4 ''Math'' ''a|b'', Some st') \<and>
          tasks_file st' = tasks_file three_tasks_store \<and>
          next_task_id (tasks_file st') = 4"
    using add_task_id_assignment [where subject = "''Math''" and title = "''a|b''"
        and st = three_tasks_store and n = 4 and today = 738000 and target = "''sessions''"] z
    by (simp add: s ne m)
  have c: "cmd_add_task 738000 ''Math'' [CHR 0xA0] three_tasks_store =
     Inr (Add_task_usage, Some three_tasks_store)"
    using add_task_id_assignment [where subject = "''Math''" and title = "[CHR 0xA0]"
        and st = three_tasks_store and n = 4 and today = 738000 and target = "''sessions''"]
    by (simp add: s)
  show ?thesis using s(1-3) t k small_id_has_text a b c by (simp only: simp_thms)
qed

end
